theory Spec2Isabelle
  imports Main
begin

section \<open>JavaScript values used by the sheet builder\<close>

text \<open>
  A JavaScript string is a sequence of UTF-16 code units, so it is modelled as a list of
  naturals below 65536. \<open>str\<close> embeds an ASCII literal. \<open>String.fromCharCode\<close> converts
  its argument with ToUint16, that is modulo 65536, and returns a one-unit string.
  Numbers are modelled by integers, which JavaScript's numbers represent exactly below
  \<open>2^53\<close>: the code only counts with array indices and column indices, all other numbers
  (widths, cell contents) are stored and never computed with.
\<close>

type_synonym jsstring = "nat list"

definition str :: "string \<Rightarrow> jsstring" where
  "str s = map of_char s"

definition fromCharCode :: "int \<Rightarrow> jsstring" where
  "fromCharCode n = [nat (n mod 65536)]"

section \<open>Column letters\<close>

text \<open>
  \<^verbatim>\<open>
  function getExcelColumnLetter(colIndex) {
      let letter = ''
      while (colIndex > 0) {
          const mod = (colIndex - 1) % 26
          letter = String.fromCharCode(65 + mod) + letter
          colIndex = Math.floor((colIndex - 1) / 26)
      }
      return letter
  }
  \<close>
  The loop is the recursive function below; its state is the pair of the two variables the
  loop assigns. Inside the loop \<open>colIndex - 1\<close> is not negative, where JavaScript's \<open>%\<close>
  and \<open>Math.floor\<close> of the quotient are \<open>mod\<close> and \<open>div\<close>.
\<close>

function getExcelColumnLetter_loop :: "int \<Rightarrow> jsstring \<Rightarrow> jsstring" where
  "getExcelColumnLetter_loop colIndex letter =
     (if colIndex > 0 then
        (let md = (colIndex - 1) mod 26
         in getExcelColumnLetter_loop ((colIndex - 1) div 26) (fromCharCode (65 + md) @ letter))
      else letter)"
  by pat_completeness auto
termination
  by (relation "measure (\<lambda>(colIndex, letter). nat colIndex)") auto

declare getExcelColumnLetter_loop.simps [simp del]

definition getExcelColumnLetter :: "int \<Rightarrow> jsstring" where
  "getExcelColumnLetter colIndex = getExcelColumnLetter_loop colIndex []"

text \<open>
  The specification's side of the column-letter claim: the value of a label in bijective
  base 26 (digits \<open>A = 1\<close>, ..., \<open>Z = 26\<close>, most significant first), and the spreadsheet
  ordering of labels (shorter labels first, labels of one length alphabetically).
\<close>

definition bijective26_value :: "jsstring \<Rightarrow> int" where
  "bijective26_value s = foldl (\<lambda>acc c. 26 * acc + (int c - 64)) 0 s"

definition is_column_label :: "jsstring \<Rightarrow> bool" where
  "is_column_label s = (s \<noteq> [] \<and> list_all (\<lambda>c. 65 \<le> c \<and> c \<le> 90) s)"

fun alphabetically_less :: "jsstring \<Rightarrow> jsstring \<Rightarrow> bool" where
  "alphabetically_less [] [] = False"
| "alphabetically_less [] (y # ys) = True"
| "alphabetically_less (x # xs) [] = False"
| "alphabetically_less (x # xs) (y # ys) = (x < y \<or> (x = y \<and> alphabetically_less xs ys))"

definition spreadsheet_less :: "jsstring \<Rightarrow> jsstring \<Rightarrow> bool" where
  "spreadsheet_less a b =
     (length a < length b \<or> (length a = length b \<and> alphabetically_less a b))"

section \<open>Objects, arrays and errors\<close>

text \<open>
  A plain object is the list of its own properties in the order \<open>Object.keys\<close> and
  \<open>Object.values\<close> enumerate them; a well-formed object has no key twice. Row objects
  are plain objects with the prototype \<open>Object.prototype\<close>: reading a property that the
  object does not have itself gives the member of that name of the prototype
  (\<open>JInherited\<close>: a function, or the prototype itself for \<open>__proto__\<close>) when there is
  one, and \<open>undefined\<close> otherwise. Cell values are the values a row object holds.
\<close>

datatype jsval = JUndefined | JNull | JBool bool | JNum int | JStr jsstring | JInherited jsstring

type_synonym 'a jsobject = "(jsstring \<times> 'a) list"

definition Object_keys :: "'a jsobject \<Rightarrow> jsstring list" where
  "Object_keys obj = map fst obj"

definition Object_values :: "'a jsobject \<Rightarrow> 'a list" where
  "Object_values obj = map snd obj"

definition objectPrototypeNames :: "jsstring list" where
  "objectPrototypeNames =
     map str [''constructor'', ''__defineGetter__'', ''__defineSetter__'', ''hasOwnProperty'',
       ''__lookupGetter__'', ''__lookupSetter__'', ''isPrototypeOf'', ''propertyIsEnumerable'',
       ''toString'', ''valueOf'', ''__proto__'', ''toLocaleString'']"

definition get_property :: "jsval jsobject \<Rightarrow> jsstring \<Rightarrow> jsval" where
  "get_property obj field =
     (case map_of obj field of
        Some v \<Rightarrow> v
      | None \<Rightarrow> if field \<in> set objectPrototypeNames then JInherited field else JUndefined)"

text \<open>
  \<open>xs[i]\<close> on an array is \<open>undefined\<close> (here \<open>None\<close>) when \<open>i\<close> is not an index of it.
\<close>

definition array_get :: "'a list \<Rightarrow> nat \<Rightarrow> 'a option" where
  "array_get xs i = (if i < length xs then Some (xs ! i) else None)"

text \<open>
  A parameter that is either one value or an array of values, and the normalisation
  \<open>Array.isArray(x) ? x : [x]\<close>.
\<close>

datatype 'a one_or_many = Single 'a | Many "'a list"

fun normalize :: "'a one_or_many \<Rightarrow> 'a list" where
  "normalize (Single x) = [x]"
| "normalize (Many xs) = xs"

text \<open>
  The errors of the module and of the library are plain \<open>Error\<close> objects, told apart by
  their message. \<open>TypeError\<close> is what the engine throws when a method is called on
  \<open>undefined\<close> or on an object that does not have it, or a property of \<open>undefined\<close> is
  read.
\<close>

datatype error = Error jsstring | TypeError

text \<open>
  \<open>xs.forEach((x, index) => ...)\<close> with the state the callback mutates passed through:
  \<open>forEach\<close> for a callback that cannot throw, \<open>forEachThrowing\<close> for one that can. An
  error thrown by the callback ends the loop; the state is mutated in place, so the state
  reached when the error is thrown is part of the outcome.
\<close>

definition forEach :: "'a list \<Rightarrow> ('a \<Rightarrow> nat \<Rightarrow> 's \<Rightarrow> 's) \<Rightarrow> 's \<Rightarrow> 's" where
  "forEach xs f s = fold (\<lambda>(index, x). f x index) (enumerate 0 xs) s"

fun forEachFrom ::
  "nat \<Rightarrow> 'a list \<Rightarrow> ('a \<Rightarrow> nat \<Rightarrow> 's \<Rightarrow> 's \<times> error option) \<Rightarrow> 's \<Rightarrow> 's \<times> error option" where
  "forEachFrom index [] f s = (s, None)"
| "forEachFrom index (x # xs) f s =
     (case f x index s of
        (s', Some e) \<Rightarrow> (s', Some e)
      | (s', None) \<Rightarrow> forEachFrom (Suc index) xs f s')"

definition forEachThrowing ::
  "'a list \<Rightarrow> ('a \<Rightarrow> nat \<Rightarrow> 's \<Rightarrow> 's \<times> error option) \<Rightarrow> 's \<Rightarrow> 's \<times> error option" where
  "forEachThrowing xs f s = forEachFrom 0 xs f s"

section \<open>The worksheet interface\<close>

text \<open>
  The workbook and its worksheets belong to the spreadsheet library (exceljs). The model
  keeps what the module sets through the library: the name and page setup a sheet is
  created with, the font set on a row, the width and alignment set on a column (by
  column number), the value of a cell (by column number and row number) and the merged
  ranges. The library's own code is not part of the repository; the definitions of this
  section follow the behaviour of the library calls the module makes, including the
  errors they throw. What is left out: a worksheet has no column keys, a range has no
  sheet-name prefix (no \<open>!\<close>), a column string handed to a row is no member name of
  \<open>Object.prototype\<close>, and numbers stay below \<open>2^53\<close>. The bytes the library
  serializes are outside the model.
\<close>

record pageSetup =
  paperSize :: nat
  orientation :: jsstring

record font =
  bold :: bool

record alignment =
  vertical :: jsstring
  horizontal :: jsstring
  wrapText :: bool

record range =
  rTop :: nat
  rLeft :: nat
  rBottom :: nat
  rRight :: nat

record worksheet =
  sheetName :: "jsstring option"
  sheetPageSetup :: pageSetup
  rowFont :: "nat \<Rightarrow> font option"
  columnWidth :: "nat \<Rightarrow> int option"
  columnAlignment :: "nat \<Rightarrow> alignment option"
  cells :: "nat \<times> nat \<Rightarrow> jsval option"
  merges :: "range list"

type_synonym workbook = "worksheet list"

text \<open>
  Decoding an address. The library reads the string from the left: capital letters
  before the first digit build the column (bijective base 26), digits build the row, any
  other character is skipped, except that once a column and a row are there a
  character other than \<open>$\<close> ends the reading. A column beyond 16384 is an error.
  \<^verbatim>\<open>
  for (let i = 0, char; i < value.length; i++) {
    char = value.charCodeAt(i);
    if (!hasRow && char >= 65 && char <= 90) {
      hasCol = true; col += value[i]; colNumber = colNumber * 26 + char - 64;
    } else if (char >= 48 && char <= 57) {
      hasRow = true; row += value[i]; rowNumber = rowNumber * 10 + char - 48;
    } else if (hasRow && hasCol && char !== 36) {
      break;
    }
  }
  if (!hasCol) { colNumber = undefined; }
  else if (colNumber > 16384) { throw new Error(`Out of bounds. Invalid column letter: ${col}`); }
  if (!hasRow) { rowNumber = undefined; }
  \<close>
\<close>

record decoding =
  hasCol :: bool
  colLetters :: jsstring
  colNumber :: nat
  hasRow :: bool
  rowNumber :: nat

fun decodeAddress_loop :: "jsstring \<Rightarrow> decoding \<Rightarrow> decoding" where
  "decodeAddress_loop [] d = d"
| "decodeAddress_loop (char # rest) d =
     (if \<not> hasRow d \<and> 65 \<le> char \<and> char \<le> 90 then
        decodeAddress_loop rest
          (d\<lparr>hasCol := True, colLetters := colLetters d @ [char],
             colNumber := colNumber d * 26 + char - 64\<rparr>)
      else if 48 \<le> char \<and> char \<le> 57 then
        decodeAddress_loop rest (d\<lparr>hasRow := True, rowNumber := rowNumber d * 10 + char - 48\<rparr>)
      else if hasRow d \<and> hasCol d \<and> char \<noteq> 36 then d
      else decodeAddress_loop rest d)"

record address =
  addressCol :: "nat option"
  addressRow :: "nat option"
  addressLetters :: jsstring

definition decodeAddress :: "jsstring \<Rightarrow> error + address" where
  "decodeAddress v =
     (let d = decodeAddress_loop v
                \<lparr>hasCol = False, colLetters = [], colNumber = 0, hasRow = False, rowNumber = 0\<rparr>
      in if hasCol d \<and> colNumber d > 16384 then
           Inl (Error (str ''Out of bounds. Invalid column letter: '' @ colLetters d))
         else
           Inr \<lparr>addressCol = (if hasCol d then Some (colNumber d) else None),
                addressRow = (if hasRow d then Some (rowNumber d) else None),
                addressLetters = colLetters d\<rparr>)"

text \<open>
  \<open>worksheet.getCell(address)\<close> decodes the address and creates the cell where there
  is none. A cell cannot be created without a column (\<open>A Cell needs a Row\<close>), and its
  address must be letters followed by digits, so a row is needed too. The result is the
  position (column number, row number) of the cell.
\<close>

definition getCell :: "jsstring \<Rightarrow> error + nat \<times> nat" where
  "getCell a =
     (case decodeAddress a of
        Inl e \<Rightarrow> Inl e
      | Inr d \<Rightarrow>
          (case addressCol d of
             None \<Rightarrow> Inl (Error (str ''A Cell needs a Row''))
           | Some c \<Rightarrow>
               (case addressRow d of
                  None \<Rightarrow> Inl (Error (str ''Invalid Address: '' @ addressLetters d))
                | Some r \<Rightarrow> Inr (c, r))))"

text \<open>
  \<open>worksheet.getRow(r).getCell(c)\<close> for a string \<open>c\<close> looks the column letter up in
  the table of the labels of the columns 1 to 16384 (\<open>l2n\<close>); the table is extended to
  labels of the length of \<open>c\<close>, which fails for four letters and more.
\<close>

definition columnNumber :: "jsstring \<Rightarrow> nat" where
  "columnNumber l = foldl (\<lambda>n c. n * 26 + c - 64) 0 l"

definition l2n :: "jsstring \<Rightarrow> error + nat" where
  "l2n l =
     (if l \<noteq> [] \<and> list_all (\<lambda>c. 65 \<le> c \<and> c \<le> 90) l \<and> length l \<le> 3 \<and> columnNumber l \<le> 16384
      then Inr (columnNumber l)
      else if 4 \<le> length l then
        Inl (Error (str ''Out of bounds. Excel supports columns from 1 to 16384''))
      else Inl (Error (str ''Out of bounds. Invalid column letter: '' @ l)))"

definition rowGetCell :: "nat \<Rightarrow> jsstring \<Rightarrow> error + nat \<times> nat" where
  "rowGetCell r c = (case l2n c of Inl e \<Rightarrow> Inl e | Inr n \<Rightarrow> Inr (n, r))"

text \<open>
  \<open>cell.value = v\<close>: a cell inside a merged range passes the value on to the master
  cell of the range, its top left cell.
\<close>

definition inRange :: "range \<Rightarrow> nat \<times> nat \<Rightarrow> bool" where
  "inRange m cell =
     (rLeft m \<le> fst cell \<and> fst cell \<le> rRight m \<and> rTop m \<le> snd cell \<and> snd cell \<le> rBottom m)"

definition master :: "worksheet \<Rightarrow> nat \<times> nat \<Rightarrow> nat \<times> nat" where
  "master ws cell =
     (case find (\<lambda>m. inRange m cell) (merges ws) of
        None \<Rightarrow> cell
      | Some m \<Rightarrow> (rLeft m, rTop m))"

definition setCellValue :: "worksheet \<Rightarrow> nat \<times> nat \<Rightarrow> jsval \<Rightarrow> worksheet" where
  "setCellValue ws cell v = ws\<lparr>cells := (cells ws)(master ws cell \<mapsto> v)\<rparr>"

text \<open>
  \<open>worksheet.mergeCells('from:to')\<close>. The two parts of the string are decoded as
  addresses, and the range is the rectangle between them. A range that intersects a
  merged range is an error. Otherwise the cells of the range other than the master lose
  their values and the range is recorded.
  \<^verbatim>\<open>
  intersects(other) {
    if (other.bottom < this.top) return false;
    if (other.top > this.bottom) return false;
    if (other.right < this.left) return false;
    if (other.left > this.right) return false;
    return true;
  }
  \<close>
  When a part has no row or no column the minimum and maximum are \<open>NaN\<close>, every
  comparison with them is false, and the call ends in an error: with no top row (also
  when the top row is 0) the range counts as intersecting every merged range, and
  without merged ranges the cell at \<open>undefined\<close> is asked for; with rows but no left
  column the range intersects the merged ranges whose rows it meets, and otherwise the
  master cell cannot be created.
\<close>

definition intersects :: "range \<Rightarrow> range \<Rightarrow> bool" where
  "intersects m other =
     (\<not> rBottom other < rTop m \<and> \<not> rTop other > rBottom m
      \<and> \<not> rRight other < rLeft m \<and> \<not> rLeft other > rRight m)"

definition rangeParts :: "jsstring \<Rightarrow> jsstring \<times> jsstring" where
  "rangeParts s =
     (takeWhile (\<lambda>c. c \<noteq> 58) s,
      takeWhile (\<lambda>c. c \<noteq> 58) (drop 1 (dropWhile (\<lambda>c. c \<noteq> 58) s)))"

definition worksheet_mergeCells :: "worksheet \<Rightarrow> jsstring \<Rightarrow> error + worksheet" where
  "worksheet_mergeCells ws s =
     (case decodeAddress (fst (rangeParts s)) of
        Inl e \<Rightarrow> Inl e
      | Inr a1 \<Rightarrow>
     (case decodeAddress (snd (rangeParts s)) of
        Inl e \<Rightarrow> Inl e
      | Inr a2 \<Rightarrow>
     (case (addressRow a1, addressRow a2) of
        (Some r1, Some r2) \<Rightarrow>
          (if min r1 r2 = 0 then
             (if merges ws \<noteq> [] then Inl (Error (str ''Cannot merge already merged cells''))
              else Inl TypeError)
           else
             (case (addressCol a1, addressCol a2) of
                (Some c1, Some c2) \<Rightarrow>
                  (let dimensions = \<lparr>rTop = min r1 r2, rLeft = min c1 c2,
                                     rBottom = max r1 r2, rRight = max c1 c2\<rparr>
                   in if list_ex (\<lambda>m. intersects m dimensions) (merges ws) then
                        Inl (Error (str ''Cannot merge already merged cells''))
                      else
                        Inr (ws\<lparr>cells := (\<lambda>cell. if inRange dimensions cell
                                                      \<and> cell \<noteq> (rLeft dimensions, rTop dimensions)
                                                   then None else cells ws cell),
                                merges := merges ws @ [dimensions]\<rparr>))
              | _ \<Rightarrow>
                  (if list_ex (\<lambda>m. \<not> max r1 r2 < rTop m \<and> \<not> min r1 r2 > rBottom m) (merges ws)
                   then Inl (Error (str ''Cannot merge already merged cells''))
                   else Inl (Error (str ''A Cell needs a Row'')))))
      | _ \<Rightarrow>
          (if merges ws \<noteq> [] then Inl (Error (str ''Cannot merge already merged cells''))
           else Inl TypeError))))"

fun decimal :: "nat \<Rightarrow> jsstring" where
  "decimal n = (if n < 10 then [48 + n] else decimal (n div 10) @ [48 + n mod 10])"

declare decimal.simps [simp del]

section \<open>The operations of the module\<close>

definition createWorkbook :: workbook where
  "createWorkbook = []"

text \<open>
  \<^verbatim>\<open>
  function addWorksheet(workboork, worksheetName) {
      return workboork.addWorksheet(worksheetName, {
          pageSetup: { paperSize: 9, orientation: 'landscape' },
      })
  }
  \<close>
  The new sheet becomes the last sheet of the workbook. The function returns the sheet
  object, which stays part of the workbook and is mutated in place by the caller: the
  model returns the sheet's position in the workbook, and \<open>inSheet\<close> applies a mutation
  to the sheet at a position (\<open>inSheetThrowing\<close> one that can throw). The name is \<open>None\<close>
  when the caller passes none.
\<close>

definition newWorksheet :: "jsstring option \<Rightarrow> pageSetup \<Rightarrow> worksheet" where
  "newWorksheet worksheetName ps =
     \<lparr>sheetName = worksheetName, sheetPageSetup = ps, rowFont = Map.empty,
      columnWidth = Map.empty, columnAlignment = Map.empty, cells = Map.empty, merges = []\<rparr>"

definition addWorksheet :: "workbook \<Rightarrow> jsstring option \<Rightarrow> workbook \<times> nat" where
  "addWorksheet workboork worksheetName =
     (workboork @ [newWorksheet worksheetName \<lparr>paperSize = 9, orientation = str ''landscape''\<rparr>],
      length workboork)"

definition inSheet :: "nat \<Rightarrow> (worksheet \<Rightarrow> worksheet) \<Rightarrow> workbook \<Rightarrow> workbook" where
  "inSheet k f wb = wb[k := f (wb ! k)]"

definition inSheetThrowing ::
  "nat \<Rightarrow> (worksheet \<Rightarrow> worksheet \<times> error option) \<Rightarrow> workbook \<Rightarrow> workbook \<times> error option" where
  "inSheetThrowing k f wb = (case f (wb ! k) of (ws, e) \<Rightarrow> (wb[k := ws], e))"

text \<open>
  \<^verbatim>\<open>
  function makeRowsBold(worksheet, rows) {
      rows = Array.isArray(rows) ? rows : [rows]
      for (const rowNum of rows) {
          worksheet.getRow(rowNum).font = { bold: true }
      }
  }
  \<close>
\<close>

definition makeRowsBold :: "worksheet \<Rightarrow> nat one_or_many \<Rightarrow> worksheet" where
  "makeRowsBold worksheet rows =
     fold (\<lambda>rowNum ws. ws\<lparr>rowFont := (rowFont ws)(rowNum \<mapsto> \<lparr>bold = True\<rparr>)\<rparr>)
       (normalize rows) worksheet"

text \<open>
  \<^verbatim>\<open>
  function setColumnWidths(worksheet, widths) {
      widths.forEach((width, index) => {
          const column = worksheet.getColumn(index + 1)
          column.width = width
          column.alignment = { vertical: 'middle', horizontal: 'center', wrapText: true }
      })
  }
  \<close>
\<close>

definition setColumnWidths :: "worksheet \<Rightarrow> int list \<Rightarrow> worksheet" where
  "setColumnWidths worksheet widths =
     forEach widths (\<lambda>width index ws.
       ws\<lparr>columnWidth := (columnWidth ws)(index + 1 \<mapsto> width),
          columnAlignment := (columnAlignment ws)(index + 1 \<mapsto>
            \<lparr>vertical = str ''middle'', horizontal = str ''center'', wrapText = True\<rparr>)\<rparr>)
       worksheet"

text \<open>
  \<^verbatim>\<open>
  function setHeaders(worksheet, headers) {
      headers.forEach((header, index) => {
          worksheet.getCell(String.fromCharCode(65 + index) + '1').value = header
      })
  }
  function addDataRow(worksheet, rowIndex, data) {
      const row = worksheet.getRow(rowIndex)
      data.forEach((item, index) => {
          row.getCell(String.fromCharCode(65 + index)).value = item
      })
  }
  \<close>
  \<open>columnKey\<close> names the expression both functions address the column by. An error of
  the library for the address ends the loop.
\<close>

definition columnKey :: "nat \<Rightarrow> jsstring" where
  "columnKey index = fromCharCode (65 + int index)"

definition setHeaders :: "worksheet \<Rightarrow> jsstring list \<Rightarrow> worksheet \<times> error option" where
  "setHeaders worksheet headers =
     forEachThrowing headers (\<lambda>header index ws.
       case getCell (columnKey index @ str ''1'') of
         Inl e \<Rightarrow> (ws, Some e)
       | Inr cell \<Rightarrow> (setCellValue ws cell (JStr header), None)) worksheet"

definition addDataRow :: "worksheet \<Rightarrow> nat \<Rightarrow> jsval list \<Rightarrow> worksheet \<times> error option" where
  "addDataRow worksheet rowIndex data =
     forEachThrowing data (\<lambda>item index ws.
       case rowGetCell rowIndex (columnKey index) of
         Inl e \<Rightarrow> (ws, Some e)
       | Inr cell \<Rightarrow> (setCellValue ws cell item, None)) worksheet"

text \<open>
  \<^verbatim>\<open>
  function mergeCells(worksheet, cellFrom, cellTo, value) {
      worksheet.mergeCells(`${cellFrom}:${cellTo}`)
      const mergedCell = worksheet.getCell(cellFrom)
      mergedCell.value = value
  }
  \<close>
\<close>

definition mergeCells ::
  "worksheet \<Rightarrow> jsstring \<Rightarrow> jsstring \<Rightarrow> jsval \<Rightarrow> worksheet \<times> error option" where
  "mergeCells worksheet cellFrom cellTo v =
     (case worksheet_mergeCells worksheet (cellFrom @ str '':'' @ cellTo) of
        Inl e \<Rightarrow> (worksheet, Some e)
      | Inr worksheet \<Rightarrow>
          (case getCell cellFrom of
             Inl e \<Rightarrow> (worksheet, Some e)
           | Inr mergedCell \<Rightarrow> (setCellValue worksheet mergedCell v, None)))"

text \<open>
  \<^verbatim>\<open>
  function setComplexHeaders(worksheet, headers) {
      for (const header of headers) {
          if (header.cell) {
              worksheet.getCell(header.cell).value = header.value
          } else if (header.from && header.to) {
              mergeCells(worksheet, header.from, header.to, header.value)
          } else {
              throw new Error('Either cell or from & to fields must be present in headers array objects:', header)
          }
      }
  }
  \<close>
  An entry has the optional string fields \<open>cell\<close>, \<open>from\<close>, \<open>to\<close> and a value. An absent
  field and the empty string are the falsy ones. The second argument of the \<open>Error\<close>
  constructor is its options object, of which only the property \<open>cause\<close> is read, and
  an entry has none: the error thrown carries the message alone. An error of the library
  ends the loop as well. The worksheet is mutated in place, so the state reached when an
  error is thrown is part of the outcome.
\<close>

record headerEntry =
  h_cell :: "jsstring option"
  h_from :: "jsstring option"
  h_to :: "jsstring option"
  h_value :: jsval

definition truthy :: "jsstring option \<Rightarrow> bool" where
  "truthy s = (case s of None \<Rightarrow> False | Some t \<Rightarrow> t \<noteq> [])"

fun setComplexHeaders :: "worksheet \<Rightarrow> headerEntry list \<Rightarrow> worksheet \<times> error option" where
  "setComplexHeaders worksheet [] = (worksheet, None)"
| "setComplexHeaders worksheet (header # headers) =
     (if truthy (h_cell header) then
        (case getCell (the (h_cell header)) of
           Inl e \<Rightarrow> (worksheet, Some e)
         | Inr cell \<Rightarrow> setComplexHeaders (setCellValue worksheet cell (h_value header)) headers)
      else if truthy (h_from header) \<and> truthy (h_to header) then
        (case mergeCells worksheet (the (h_from header)) (the (h_to header)) (h_value header) of
           (worksheet, Some e) \<Rightarrow> (worksheet, Some e)
         | (worksheet, None) \<Rightarrow> setComplexHeaders worksheet headers)
      else
        (worksheet, Some (Error (str
           ''Either cell or from & to fields must be present in headers array objects:''))))"

section \<open>createBuffer\<close>

text \<open>
  \<open>headers\<close> is one header object or an array of them; a header object maps a field name
  to its display name and column width. \<open>worksheetNames\<close> is one string or an array of
  strings. \<open>data\<close> is documented as an array of row objects or an array of such arrays;
  both are arrays, whose elements are row objects or arrays of row objects. A \<open>data\<close>
  that is a single object and not an array is \<open>DataObject\<close>.
\<close>

record HeaderData =
  name :: jsstring
  width :: int

type_synonym HeaderSpec = "HeaderData jsobject"

type_synonym rowObject = "jsval jsobject"

datatype data_elem = RowObject rowObject | RowArray "rowObject list"

datatype data_arg = DataObject rowObject | DataArray "data_elem list"

fun normalize_data :: "data_arg \<Rightarrow> data_elem list" where
  "normalize_data (DataObject r) = [RowObject r]"
| "normalize_data (DataArray xs) = xs"

text \<open>
  The buffer is what the library serializes the workbook to.
\<close>

datatype buffer = XlsxBuffer workbook

definition getBuffer :: "workbook \<Rightarrow> buffer" where
  "getBuffer workbook = XlsxBuffer workbook"

text \<open>
  \<^verbatim>\<open>
  for (let i = 0; i < headers.length; i++) {
      const sheetHeaders = headers[i]
      const sheetData = data[i]
      const worksheet = addWorksheet(workbook)
      makeRowsBold(worksheet, [1])
      const headerValues = Object.values(sheetHeaders).map(item => item.name)
      setHeaders(worksheet, headerValues)
      const columnWidths = Object.values(sheetHeaders).map(item => item.width)
      setColumnWidths(worksheet, columnWidths)
      const fieldNames = Object.keys(sheetHeaders)
      const startDataRow = 2
      sheetData.forEach((dataItem, index) => {
          const values = []
          fieldNames.forEach(field => { values.push(dataItem[field]) })
          addDataRow(worksheet, startDataRow + index, values)
      })
  }
  \<close>
  \<open>sheetStep\<close> is the body of the loop at index \<open>i\<close>, which the loop runs for
  \<open>i < headers.length\<close> only. \<open>addWorksheet\<close> is called without a name. An error
  thrown by \<open>setHeaders\<close> or \<open>addDataRow\<close> leaves the body at once.
  \<open>sheetData.forEach\<close> throws a \<open>TypeError\<close> when \<open>sheetData\<close> is \<open>undefined\<close> or a row
  object, after the sheet was created and its headers and widths were set.
\<close>

definition sheetStep ::
  "HeaderSpec list \<Rightarrow> data_elem list \<Rightarrow> nat \<Rightarrow> workbook \<Rightarrow> workbook \<times> error option" where
  "sheetStep headers data i workbook =
     (let sheetHeaders = headers ! i;
          sheetData = array_get data i;
          (workbook, worksheet) = addWorksheet workbook None;
          workbook = inSheet worksheet (\<lambda>ws. makeRowsBold ws (Many [1])) workbook;
          headerValues = map name (Object_values sheetHeaders)
      in case inSheetThrowing worksheet (\<lambda>ws. setHeaders ws headerValues) workbook of
           (workbook, Some e) \<Rightarrow> (workbook, Some e)
         | (workbook, None) \<Rightarrow>
             (let columnWidths = map width (Object_values sheetHeaders);
                  workbook = inSheet worksheet (\<lambda>ws. setColumnWidths ws columnWidths) workbook;
                  fieldNames = Object_keys sheetHeaders;
                  startDataRow = 2
              in case sheetData of
                   Some (RowArray rows) \<Rightarrow>
                     inSheetThrowing worksheet (\<lambda>ws.
                       forEachThrowing rows (\<lambda>dataItem index ws.
                         addDataRow ws (startDataRow + index)
                           (map (get_property dataItem) fieldNames)) ws) workbook
                 | _ \<Rightarrow> (workbook, Some TypeError)))"

function createBuffer_loop ::
  "HeaderSpec list \<Rightarrow> data_elem list \<Rightarrow> nat \<Rightarrow> workbook \<Rightarrow> workbook \<times> error option" where
  "createBuffer_loop headers data i workbook =
     (if i < length headers then
        (case sheetStep headers data i workbook of
           (workbook, Some e) \<Rightarrow> (workbook, Some e)
         | (workbook, None) \<Rightarrow> createBuffer_loop headers data (i + 1) workbook)
      else (workbook, None))"
  by pat_completeness auto
termination
  by (relation "measure (\<lambda>(headers, data, i, workbook). length headers - i)") auto

declare createBuffer_loop.simps [simp del]

text \<open>
  \<^verbatim>\<open>
  async function createBuffer(headers, data, worksheetNames) {
      headers = Array.isArray(headers) ? headers : [headers]
      data = Array.isArray(data) ? data : [data]
      worksheetNames = Array.isArray(worksheetNames) ? worksheetNames : [worksheetNames]
      if ((headers.length != data.length) != worksheetNames.length) {
          throw new Error('Size of headers, data and worksheetNames must be equal')
      }
      const workbook = createWorkbook()
      for (...) { ... }
      return await getBuffer(workbook)
  }
  \<close>
  The condition compares the boolean \<open>headers.length != data.length\<close> with the number
  \<open>worksheetNames.length\<close>; the loose \<open>!=\<close> converts the boolean to 1 or 0 first
  (\<open>boolToNumber\<close>). The outcome of a call is the workbook the call has created, if it
  came to create one, in the state the call left it in, together with the error thrown or
  the buffer returned.
\<close>

definition boolToNumber :: "bool \<Rightarrow> nat" where
  "boolToNumber b = (if b then 1 else 0)"

definition sizeError :: error where
  "sizeError = Error (str ''Size of headers, data and worksheetNames must be equal'')"

definition createBuffer ::
  "HeaderSpec one_or_many \<Rightarrow> data_arg \<Rightarrow> jsstring one_or_many
     \<Rightarrow> workbook option \<times> (error + buffer)" where
  "createBuffer headers data worksheetNames =
     (let headers = normalize headers;
          data = normalize_data data;
          worksheetNames = normalize worksheetNames
      in if boolToNumber (length headers \<noteq> length data) \<noteq> length worksheetNames then
           (None, Inl sizeError)
         else
           (let workbook = createWorkbook
            in case createBuffer_loop headers data 0 workbook of
                 (workbook, Some e) \<Rightarrow> (Some workbook, Inl e)
               | (workbook, None) \<Rightarrow> (Some workbook, Inr (getBuffer workbook))))"

text \<open>
  Names for stating results about the sheet that one run of the loop body creates:
  \<open>labelledSheet h\<close> is the new sheet when \<open>setHeaders\<close> has returned or thrown,
  \<open>headerSheet h\<close> is it after \<open>setColumnWidths\<close>, which is where a \<open>TypeError\<close> leaves
  it, and \<open>dataSheet h rows\<close> is it after the data loop over \<open>rows\<close>.
\<close>

definition labelledSheet :: "HeaderSpec \<Rightarrow> worksheet" where
  "labelledSheet h =
     fst (setHeaders
            (makeRowsBold
               (newWorksheet None \<lparr>paperSize = 9, orientation = str ''landscape''\<rparr>) (Many [1]))
            (map name (Object_values h)))"

definition headerSheet :: "HeaderSpec \<Rightarrow> worksheet" where
  "headerSheet h = setColumnWidths (labelledSheet h) (map width (Object_values h))"

definition dataSheet :: "HeaderSpec \<Rightarrow> rowObject list \<Rightarrow> worksheet" where
  "dataSheet h rows =
     fst (forEachThrowing rows (\<lambda>dataItem index ws.
            addDataRow ws (2 + index) (map (get_property dataItem) (Object_keys h)))
          (headerSheet h))"

text \<open>
  The sheets \<open>createBuffer\<close> creates carry no name of their own setting.
\<close>

definition unnamed_landscape :: "worksheet \<Rightarrow> bool" where
  "unnamed_landscape ws \<longleftrightarrow> sheetName ws = None
     \<and> sheetPageSetup ws = \<lparr>paperSize = 9, orientation = str ''landscape''\<rparr>"

text \<open>
  The specification's side of the addressing: the loops of \<open>setHeaders\<close> and
  \<open>addDataRow\<close> with the column of index \<open>i\<close> addressed by
  \<open>getExcelColumnLetter(i + 1)\<close>.
\<close>

definition setHeaders_by_letter :: "worksheet \<Rightarrow> jsstring list \<Rightarrow> worksheet \<times> error option" where
  "setHeaders_by_letter worksheet headers =
     forEachThrowing headers (\<lambda>header index ws.
       case getCell (getExcelColumnLetter (int index + 1) @ str ''1'') of
         Inl e \<Rightarrow> (ws, Some e)
       | Inr cell \<Rightarrow> (setCellValue ws cell (JStr header), None)) worksheet"

definition addDataRow_by_letter ::
  "worksheet \<Rightarrow> nat \<Rightarrow> jsval list \<Rightarrow> worksheet \<times> error option" where
  "addDataRow_by_letter worksheet rowIndex data =
     forEachThrowing data (\<lambda>item index ws.
       case rowGetCell rowIndex (getExcelColumnLetter (int index + 1)) of
         Inl e \<Rightarrow> (ws, Some e)
       | Inr cell \<Rightarrow> (setCellValue ws cell item, None)) worksheet"


text \<open>
  Inputs used to evaluate the module: the header object and rows of the round-trip
  example, and a header object with the 27 fields \<open>f0\<close>, ..., \<open>f26\<close>.
\<close>

definition exampleHeaders :: HeaderSpec where
  "exampleHeaders =
     [(str ''id'', \<lparr>name = str ''ID'', width = 10\<rparr>),
      (str ''label'', \<lparr>name = str ''Label'', width = 20\<rparr>)]"

definition exampleData :: "rowObject list" where
  "exampleData =
     [[(str ''id'', JNum 1), (str ''label'', JStr (str ''a''))],
      [(str ''id'', JNum 2), (str ''label'', JStr (str ''b''))]]"

definition header27 :: HeaderSpec where
  "header27 = map (\<lambda>k. (str ''f'' @ decimal k, \<lparr>name = str ''H'' @ decimal k, width = 10\<rparr>)) [0..<27]"

section \<open>Column letters are bijective base 26\<close>

text \<open>
  The loop prepends to its accumulator, so the label of an index is the label of the
  quotient followed by one more letter.
\<close>

lemma letter_loop_step:
  "0 < n \<Longrightarrow> getExcelColumnLetter_loop n acc =
     getExcelColumnLetter_loop ((n - 1) div 26) (nat (65 + (n - 1) mod 26) # acc)"
  by (subst getExcelColumnLetter_loop.simps) (simp add: Let_def fromCharCode_def)

lemma letter_loop_stop: "n \<le> 0 \<Longrightarrow> getExcelColumnLetter_loop n acc = acc"
  by (subst getExcelColumnLetter_loop.simps) simp

lemma letter_loop_acc: "getExcelColumnLetter_loop n acc = getExcelColumnLetter_loop n [] @ acc"
proof (induction "nat n" arbitrary: n acc rule: less_induct)
  case less
  show ?case
  proof (cases "0 < n")
    case True
    let ?q = "(n - 1) div 26"
    let ?c = "nat (65 + (n - 1) mod 26)"
    have smaller: "nat ?q < nat n" using True by simp
    have "getExcelColumnLetter_loop n acc = getExcelColumnLetter_loop ?q (?c # acc)"
      using True by (rule letter_loop_step)
    also have "\<dots> = getExcelColumnLetter_loop ?q [] @ ?c # acc"
      by (rule less.hyps[OF smaller])
    also have "\<dots> = (getExcelColumnLetter_loop ?q [] @ [?c]) @ acc"
      by simp
    also have "getExcelColumnLetter_loop ?q [] @ [?c] = getExcelColumnLetter_loop ?q [?c]"
      by (rule less.hyps[OF smaller, symmetric])
    also have "\<dots> = getExcelColumnLetter_loop n []"
      using True by (rule letter_loop_step[symmetric])
    finally show ?thesis .
  next
    case False
    then show ?thesis by (simp add: letter_loop_stop)
  qed
qed

lemma letter_nonpos: "n \<le> 0 \<Longrightarrow> getExcelColumnLetter n = []"
  by (simp add: getExcelColumnLetter_def letter_loop_stop)

lemma letter_rec:
  assumes "0 < n"
  shows "getExcelColumnLetter n =
           getExcelColumnLetter ((n - 1) div 26) @ [nat (65 + (n - 1) mod 26)]"
proof -
  have "getExcelColumnLetter n =
          getExcelColumnLetter_loop ((n - 1) div 26) [nat (65 + (n - 1) mod 26)]"
    unfolding getExcelColumnLetter_def using assms by (rule letter_loop_step)
  then show ?thesis
    unfolding getExcelColumnLetter_def by (subst (asm) letter_loop_acc)
qed

lemma value_snoc: "bijective26_value (s @ [c]) = 26 * bijective26_value s + (int c - 64)"
  by (simp add: bijective26_value_def)

lemma value_letter: "0 \<le> n \<Longrightarrow> bijective26_value (getExcelColumnLetter n) = n"
proof (induction "nat n" arbitrary: n rule: less_induct)
  case less
  show ?case
  proof (cases "0 < n")
    case True
    let ?q = "(n - 1) div 26"
    have smaller: "nat ?q < nat n" and nonneg: "0 \<le> ?q" using True by simp_all
    have ih: "bijective26_value (getExcelColumnLetter ?q) = ?q"
      by (rule less.hyps[OF smaller nonneg])
    have "bijective26_value (getExcelColumnLetter n) = 26 * ?q + ((n - 1) mod 26 + 1)"
      using True by (simp add: letter_rec value_snoc ih)
    also have "\<dots> = n" by simp
    finally show ?thesis .
  next
    case False
    with less.prems have "n = 0" by simp
    then show ?thesis by (simp add: letter_nonpos bijective26_value_def)
  qed
qed

lemma letter_inj:
  assumes "0 \<le> m" "0 \<le> n" "getExcelColumnLetter m = getExcelColumnLetter n"
  shows "m = n"
  using assms value_letter by metis

lemma letter_chars: "list_all (\<lambda>c. 65 \<le> c \<and> c \<le> 90) (getExcelColumnLetter n)"
proof (induction "nat n" arbitrary: n rule: less_induct)
  case less
  show ?case
  proof (cases "0 < n")
    case True
    let ?q = "(n - 1) div 26"
    have smaller: "nat ?q < nat n" using True by simp
    have "0 \<le> (n - 1) mod 26" "(n - 1) mod 26 < 26" by simp_all
    then have "65 \<le> nat (65 + (n - 1) mod 26)" "nat (65 + (n - 1) mod 26) \<le> 90" by linarith+
    then show ?thesis
      using less.hyps[OF smaller] True by (simp add: letter_rec)
  next
    case False
    then show ?thesis by (simp add: letter_nonpos)
  qed
qed

lemma letter_is_label: "0 < n \<Longrightarrow> is_column_label (getExcelColumnLetter n)"
  using letter_chars[of n] letter_chars[of "(n - 1) div 26"]
  by (simp add: is_column_label_def letter_rec)

lemma letter_length_mono:
  "m \<le> n \<Longrightarrow> length (getExcelColumnLetter m) \<le> length (getExcelColumnLetter n)"
proof (induction "nat n" arbitrary: m n rule: less_induct)
  case less
  show ?case
  proof (cases "0 < m")
    case True
    then have n: "0 < n" using less.prems by simp
    have smaller: "nat ((n - 1) div 26) < nat n" using n by simp
    have le: "(m - 1) div 26 \<le> (n - 1) div 26" using less.prems by (simp add: zdiv_mono1)
    show ?thesis using less.hyps[OF smaller le] True n by (simp add: letter_rec)
  next
    case False
    then show ?thesis by (simp add: letter_nonpos)
  qed
qed

lemma alpha_snoc_same: "alphabetically_less (s @ [a]) (s @ [b]) = (a < b)"
  by (induction s) auto

lemma alpha_snoc:
  "length s = length t \<Longrightarrow> alphabetically_less s t \<Longrightarrow> alphabetically_less (s @ [a]) (t @ [b])"
  by (induction s t rule: alphabetically_less.induct) auto

lemma letter_order:
  assumes "0 < m" "m < n"
  shows "spreadsheet_less (getExcelColumnLetter m) (getExcelColumnLetter n)"
  using assms
proof (induction "nat n" arbitrary: m n rule: less_induct)
  case less
  let ?qm = "(m - 1) div 26" and ?qn = "(n - 1) div 26"
  let ?cm = "nat (65 + (m - 1) mod 26)" and ?cn = "nat (65 + (n - 1) mod 26)"
  have n: "0 < n" using less.prems by simp
  have rm: "getExcelColumnLetter m = getExcelColumnLetter ?qm @ [?cm]"
    using less.prems(1) by (rule letter_rec)
  have rn: "getExcelColumnLetter n = getExcelColumnLetter ?qn @ [?cn]"
    using n by (rule letter_rec)
  have le: "?qm \<le> ?qn" using less.prems by (simp add: zdiv_mono1)
  show ?case
  proof (cases "?qm = ?qn")
    case True
    have "(m - 1) mod 26 < (n - 1) mod 26"
    proof -
      have "m - 1 = 26 * ?qm + (m - 1) mod 26" "n - 1 = 26 * ?qn + (n - 1) mod 26" by simp_all
      with True less.prems(2) show ?thesis by linarith
    qed
    moreover have "0 \<le> (m - 1) mod 26" by simp
    ultimately have "?cm < ?cn" by linarith
    then show ?thesis
      unfolding rm rn True by (simp add: spreadsheet_less_def alpha_snoc_same)
  next
    case False
    with le have lt: "?qm < ?qn" by simp
    have smaller: "nat ?qn < nat n" using n by simp
    show ?thesis
    proof (cases "0 < ?qm")
      case True
      have "spreadsheet_less (getExcelColumnLetter ?qm) (getExcelColumnLetter ?qn)"
        by (rule less.hyps[OF smaller True lt])
      then show ?thesis
        unfolding rm rn by (auto simp add: spreadsheet_less_def alpha_snoc)
    next
      case False
      then have e: "getExcelColumnLetter ?qm = []" by (simp add: letter_nonpos)
      have "0 \<le> ?qm" using less.prems(1) by simp
      with lt have "0 < ?qn" by simp
      then have "getExcelColumnLetter ?qn \<noteq> []" by (simp add: letter_rec)
      then show ?thesis
        unfolding rm rn e by (simp add: spreadsheet_less_def)
    qed
  qed
qed


lemma alpha_irrefl: "\<not> alphabetically_less s s"
  by (induction s) auto

lemma alpha_asym: "alphabetically_less s t \<Longrightarrow> \<not> alphabetically_less t s"
  by (induction s t rule: alphabetically_less.induct) auto

lemma spreadsheet_less_asym: "spreadsheet_less s t \<Longrightarrow> \<not> spreadsheet_less t s"
  by (auto simp add: spreadsheet_less_def dest: alpha_asym)

lemma letter_order_iff:
  assumes "0 < m" "0 < n"
  shows "spreadsheet_less (getExcelColumnLetter m) (getExcelColumnLetter n) = (m < n)"
proof (cases "m < n")
  case True
  then show ?thesis using assms letter_order by simp
next
  case False
  show ?thesis
  proof (cases "m = n")
    case True
    then show ?thesis by (simp add: spreadsheet_less_def alpha_irrefl)
  next
    case neq: False
    with False have "n < m" by simp
    then have "spreadsheet_less (getExcelColumnLetter n) (getExcelColumnLetter m)"
      using assms letter_order by simp
    then show ?thesis using False spreadsheet_less_asym by blast
  qed
qed

lemma label_is_letter:
  "is_column_label s \<Longrightarrow> getExcelColumnLetter (bijective26_value s) = s \<and> 0 < bijective26_value s"
proof (induction s rule: rev_induct)
  case Nil
  then show ?case by (simp add: is_column_label_def)
next
  case (snoc c t)
  from snoc.prems have c: "65 \<le> c" "c \<le> 90" and t: "list_all (\<lambda>c. 65 \<le> c \<and> c \<le> 90) t"
    by (simp_all add: is_column_label_def)
  let ?v = "bijective26_value t"
  let ?n = "bijective26_value (t @ [c])"
  have prefix: "getExcelColumnLetter ?v = t \<and> 0 \<le> ?v"
  proof (cases "t = []")
    case True
    then show ?thesis by (simp add: bijective26_value_def letter_nonpos)
  next
    case False
    with t have "is_column_label t" by (simp add: is_column_label_def)
    with snoc.IH show ?thesis by simp
  qed
  have n: "?n - 1 = 26 * ?v + (int c - 65)" by (simp add: value_snoc)
  have r: "0 \<le> int c - 65" "int c - 65 < 26" using c by simp_all
  have q: "(?n - 1) div 26 = ?v" unfolding n using r by simp
  have m: "(?n - 1) mod 26 = int c - 65" unfolding n using r by simp
  have pos: "0 < ?n" using n r prefix by linarith
  have "getExcelColumnLetter ?n = getExcelColumnLetter ?v @ [nat (65 + (int c - 65))]"
    using letter_rec[OF pos] unfolding q m .
  then show ?case using prefix pos by simp
qed

text \<open>
  Claim C3. For every column index from 1 to 1000, \<open>getExcelColumnLetter\<close> follows the
  bijective base-26 column numbering: the label of \<open>n\<close> is the label of
  \<open>floor((n - 1) / 26)\<close> with the letter of code \<open>65 + (n - 1) mod 26\<close> appended, and the
  label of 0 is empty, where the loop stops; the label is a non-empty string of
  letters \<open>A\<close> to \<open>Z\<close> whose bijective base-26 value is \<open>n\<close>; two indices have the same
  label only if they are equal, and labels are ordered as spreadsheet columns are exactly
  as their indices are. The labels of 1, 26, 27, 702 and 703 are \<open>A\<close>, \<open>Z\<close>, \<open>AA\<close>,
  \<open>ZZ\<close> and \<open>AAA\<close>.
\<close>

theorem getExcelColumnLetter_bijective_base26:
  assumes "1 \<le> m" "m \<le> 1000" "1 \<le> n" "n \<le> 1000"
  shows "getExcelColumnLetter 1 = str ''A'' \<and> getExcelColumnLetter 26 = str ''Z''
       \<and> getExcelColumnLetter 27 = str ''AA'' \<and> getExcelColumnLetter 702 = str ''ZZ''
       \<and> getExcelColumnLetter 703 = str ''AAA''
       \<and> getExcelColumnLetter 0 = []
       \<and> getExcelColumnLetter n =
           getExcelColumnLetter ((n - 1) div 26) @ fromCharCode (65 + (n - 1) mod 26)
       \<and> is_column_label (getExcelColumnLetter n)
       \<and> bijective26_value (getExcelColumnLetter n) = n
       \<and> (getExcelColumnLetter m = getExcelColumnLetter n) = (m = n)
       \<and> spreadsheet_less (getExcelColumnLetter m) (getExcelColumnLetter n) = (m < n)"
proof -
  have m: "0 < m" "0 \<le> m" and n: "0 < n" "0 \<le> n" using assms by simp_all
  have c1: "getExcelColumnLetter 1 = str ''A''" by code_simp
  have c2: "getExcelColumnLetter 26 = str ''Z''" by code_simp
  have c3: "getExcelColumnLetter 27 = str ''AA''" by code_simp
  have c4: "getExcelColumnLetter 702 = str ''ZZ''" by code_simp
  have c5: "getExcelColumnLetter 703 = str ''AAA''" by code_simp
  have c6: "getExcelColumnLetter 0 = []" by (simp add: letter_nonpos)
  have "0 \<le> (n - 1) mod 26" by simp
  then have "(65 + (n - 1) mod 26) mod 65536 = 65 + (n - 1) mod 26"
    using pos_mod_bound[of 26 "n - 1"] by (intro mod_pos_pos_trivial) linarith+
  then have r: "getExcelColumnLetter n =
      getExcelColumnLetter ((n - 1) div 26) @ fromCharCode (65 + (n - 1) mod 26)"
    using letter_rec[OF n(1)] by (simp add: fromCharCode_def)
  have l: "is_column_label (getExcelColumnLetter n)" using n(1) by (rule letter_is_label)
  have v: "bijective26_value (getExcelColumnLetter n) = n" using n(2) by (rule value_letter)
  have i: "(getExcelColumnLetter m = getExcelColumnLetter n) = (m = n)"
    using letter_inj[OF m(2) n(2)] by blast
  have ord: "spreadsheet_less (getExcelColumnLetter m) (getExcelColumnLetter n) = (m < n)"
    using m(1) n(1) by (rule letter_order_iff)
  show ?thesis using c1 c2 c3 c4 c5 c6 r l v i ord by blast
qed

theorem getExcelColumnLetter_bijective_base26_witness:
  "(1::int) \<le> 26 \<and> (27::int) \<le> 1000
     \<and> is_column_label (getExcelColumnLetter 27)
     \<and> bijective26_value (getExcelColumnLetter 27) = 27
     \<and> getExcelColumnLetter 26 \<noteq> getExcelColumnLetter 27
     \<and> spreadsheet_less (getExcelColumnLetter 26) (getExcelColumnLetter 27)"
proof -
  have p: "(1::int) \<le> 26" "(26::int) \<le> 1000" "(1::int) \<le> 27" "(27::int) \<le> 1000"
    by simp_all
  note t = getExcelColumnLetter_bijective_base26 [OF p]
  from t have a: "is_column_label (getExcelColumnLetter 27)" by blast
  from t have b: "bijective26_value (getExcelColumnLetter 27) = 27" by blast
  from t have "(getExcelColumnLetter 26 = getExcelColumnLetter 27) = ((26::int) = 27)" by blast
  then have c: "getExcelColumnLetter 26 \<noteq> getExcelColumnLetter 27" by simp
  from t have "spreadsheet_less (getExcelColumnLetter 26) (getExcelColumnLetter 27) = ((26::int) < 27)"
    by blast
  then have d: "spreadsheet_less (getExcelColumnLetter 26) (getExcelColumnLetter 27)" by simp
  show ?thesis using p a b c d by blast
qed

section \<open>Loops over arrays\<close>

lemma forEach_Nil: "forEach [] f s = s"
  by (simp add: forEach_def)

lemma forEach_snoc: "forEach (xs @ [x]) f s = f x (length xs) (forEach xs f s)"
  by (simp add: forEach_def enumerate_append_eq)

lemma forEach_frame:
  assumes "\<And>x i s. q (f x i s) = q s"
  shows "q (forEach xs f s) = q s"
  by (induction xs rule: rev_induct) (simp_all add: forEach_Nil forEach_snoc assms)

lemma forEach_untouched:
  assumes step: "\<And>x i s. p (f x i s) = (p s)(key i \<mapsto> v x)"
    and "\<forall>k<length xs. key k \<noteq> a"
  shows "p (forEach xs f s) a = p s a"
  using assms(2)
  by (induction xs rule: rev_induct) (auto simp add: forEach_Nil forEach_snoc step)

lemma forEach_written:
  assumes step: "\<And>x i s. p (f x i s) = (p s)(key i \<mapsto> v x)"
    and "k < length xs"
    and "\<forall>k'<length xs. k < k' \<longrightarrow> key k' \<noteq> key k"
  shows "p (forEach xs f s) (key k) = Some (v (xs ! k))"
  using assms(2,3)
proof (induction xs rule: rev_induct)
  case Nil
  then show ?case by simp
next
  case (snoc x xs)
  show ?case
  proof (cases "k = length xs")
    case True
    then show ?thesis by (simp add: forEach_snoc step)
  next
    case False
    with snoc.prems have k: "k < length xs" by simp
    with snoc.prems have later: "\<forall>k'<length xs. k < k' \<longrightarrow> key k' \<noteq> key k"
      and last: "key (length xs) \<noteq> key k" by simp_all
    show ?thesis
      using snoc.IH[OF k later] last k by (simp add: forEach_snoc step nth_append)
  qed
qed

lemma setColumnWidths_column:
  assumes "k < length widths"
  shows "columnWidth (setColumnWidths worksheet widths) (k + 1) = Some (widths ! k)
       \<and> columnAlignment (setColumnWidths worksheet widths) (k + 1) =
           Some \<lparr>vertical = str ''middle'', horizontal = str ''center'', wrapText = True\<rparr>"
proof -
  let ?f = "\<lambda>width index ws.
       ws\<lparr>columnWidth := (columnWidth ws)(index + 1 \<mapsto> width),
          columnAlignment := (columnAlignment ws)(index + 1 \<mapsto>
            \<lparr>vertical = str ''middle'', horizontal = str ''center'', wrapText = True\<rparr>)\<rparr>"
  have later: "\<forall>k'<length widths. k < k' \<longrightarrow> k' + 1 \<noteq> k + 1" by simp
  have w: "columnWidth (forEach widths ?f worksheet) (k + 1) = Some (widths ! k)"
    by (rule forEach_written[where p = columnWidth and key = "\<lambda>i. i + 1" and v = "\<lambda>x. x", OF _ assms later])
       simp
  have a: "columnAlignment (forEach widths ?f worksheet) (k + 1) =
      Some \<lparr>vertical = str ''middle'', horizontal = str ''center'', wrapText = True\<rparr>"
    by (rule forEach_written[where p = columnAlignment and key = "\<lambda>i. i + 1"
          and v = "\<lambda>x. \<lparr>vertical = str ''middle'', horizontal = str ''center'', wrapText = True\<rparr>",
          OF _ assms later])
       simp
  show ?thesis using w a by (simp add: setColumnWidths_def)
qed

text \<open>
  Claim C8. For every widths array passed to \<open>setColumnWidths\<close>, the column with
  1-based number \<open>k + 1\<close> receives the width at 0-based index \<open>k\<close>, and the alignment
  vertical \<open>middle\<close>, horizontal \<open>center\<close>, wrapText \<open>true\<close>.
\<close>

theorem setColumnWidths_sets_width_and_alignment:
  assumes "k < length widths"
  shows "columnWidth (setColumnWidths worksheet widths) (k + 1) = Some (widths ! k)
       \<and> columnAlignment (setColumnWidths worksheet widths) (k + 1) =
           Some \<lparr>vertical = str ''middle'', horizontal = str ''center'', wrapText = True\<rparr>"
  using assms by (rule setColumnWidths_column)

theorem setColumnWidths_sets_width_and_alignment_witness:
  "1 < length [10, 20 :: int]
   \<and> columnWidth (setColumnWidths (headerSheet [])
         [10, 20]) (1 + 1) = Some ([10, 20] ! 1)
   \<and> columnAlignment (setColumnWidths (headerSheet [])
         [10, 20]) (1 + 1) =
        Some \<lparr>vertical = str ''middle'', horizontal = str ''center'', wrapText = True\<rparr>"
proof -
  have h: "1 < length [10, 20 :: int]" by simp
  show ?thesis
    using h setColumnWidths_sets_width_and_alignment
      [OF h, of "headerSheet []"] by blast
qed

lemma setColumnWidths_other_columns:
  assumes "c = 0 \<or> length widths < c"
  shows "columnWidth (setColumnWidths worksheet widths) c = columnWidth worksheet c"
    and "columnAlignment (setColumnWidths worksheet widths) c = columnAlignment worksheet c"
proof -
  have k: "\<forall>k<length widths. k + 1 \<noteq> c" using assms by auto
  show "columnWidth (setColumnWidths worksheet widths) c = columnWidth worksheet c"
    unfolding setColumnWidths_def
    by (rule forEach_untouched[where p = columnWidth and key = "\<lambda>i. i + 1" and v = "\<lambda>x. x", OF _ k]) simp
  show "columnAlignment (setColumnWidths worksheet widths) c = columnAlignment worksheet c"
    unfolding setColumnWidths_def
    by (rule forEach_untouched[where p = columnAlignment and key = "\<lambda>i. i + 1"
          and v = "\<lambda>x. \<lparr>vertical = str ''middle'', horizontal = str ''center'', wrapText = True\<rparr>", OF _ k]) simp
qed


lemma forEach_invariant:
  assumes "I s" "\<And>x i s. I s \<Longrightarrow> I (f x i s)"
  shows "I (forEach xs f s)"
  by (induction xs rule: rev_induct) (simp_all add: forEach_Nil forEach_snoc assms)

lemma forEach_untouched_inv:
  assumes "I s" "\<And>x i s. I s \<Longrightarrow> I (f x i s)"
    and step: "\<And>x i s. I s \<Longrightarrow> p (f x i s) = (p s)(key i \<mapsto> v x)"
    and "\<forall>k<length xs. key k \<noteq> a"
  shows "p (forEach xs f s) a = p s a"
  using assms(4)
proof (induction xs rule: rev_induct)
  case Nil
  then show ?case by (simp add: forEach_Nil)
next
  case (snoc x xs)
  have inv: "I (forEach xs f s)" using assms(1,2) by (rule forEach_invariant)
  show ?case using snoc by (auto simp add: forEach_snoc step[OF inv])
qed

lemma forEach_written_inv:
  assumes "I s" "\<And>x i s. I s \<Longrightarrow> I (f x i s)"
    and step: "\<And>x i s. I s \<Longrightarrow> p (f x i s) = (p s)(key i \<mapsto> v x)"
    and "k < length xs"
    and "\<forall>k'<length xs. k < k' \<longrightarrow> key k' \<noteq> key k"
  shows "p (forEach xs f s) (key k) = Some (v (xs ! k))"
  using assms(4,5)
proof (induction xs rule: rev_induct)
  case Nil
  then show ?case by simp
next
  case (snoc x xs)
  have inv: "I (forEach xs f s)" using assms(1,2) by (rule forEach_invariant)
  show ?case
  proof (cases "k = length xs")
    case True
    then show ?thesis by (simp add: forEach_snoc step[OF inv])
  next
    case False
    with snoc.prems have k: "k < length xs" by simp
    with snoc.prems have later: "\<forall>k'<length xs. k < k' \<longrightarrow> key k' \<noteq> key k"
      and last: "key (length xs) \<noteq> key k" by simp_all
    show ?thesis
      using snoc.IH[OF k later] last k by (simp add: forEach_snoc step[OF inv] nth_append)
  qed
qed

lemma forEachFrom_append:
  "forEachFrom n (xs @ ys) f s =
     (case forEachFrom n xs f s of
        (s', Some e) \<Rightarrow> (s', Some e)
      | (s', None) \<Rightarrow> forEachFrom (n + length xs) ys f s')"
  by (induction xs arbitrary: n s) (auto split: prod.splits option.splits)

lemma forEachFrom_cong:
  assumes "\<And>k s. k < length xs \<Longrightarrow> f (xs ! k) (n + k) s = g (xs ! k) (n + k) s"
  shows "forEachFrom n xs f s = forEachFrom n xs g s"
  using assms
proof (induction xs arbitrary: n s)
  case Nil
  then show ?case by simp
next
  case (Cons x xs)
  have head: "f x n s = g x n s" using Cons.prems[of 0 s] by simp
  have tail: "forEachFrom (Suc n) xs f s' = forEachFrom (Suc n) xs g s'" for s'
    using Cons.prems[of "Suc k" for k] by (intro Cons.IH) simp
  show ?case by (simp add: head tail)
qed

lemma forEachFrom_pure:
  assumes "\<And>k s. k < length xs \<Longrightarrow> f (xs ! k) (n + k) s = (g (xs ! k) (n + k) s, None)"
  shows "forEachFrom n xs f s = (fold (\<lambda>(index, x). g x index) (enumerate n xs) s, None)"
  using assms
proof (induction xs arbitrary: n s)
  case Nil
  then show ?case by simp
next
  case (Cons x xs)
  have head: "f x n s = (g x n s, None)" using Cons.prems[of 0 s] by simp
  have tail: "forEachFrom (Suc n) xs f s' = (fold (\<lambda>(index, x). g x index) (enumerate (Suc n) xs) s', None)" for s'
    using Cons.prems[of "Suc k" for k] by (intro Cons.IH) simp
  show ?case by (simp add: head tail)
qed

lemma forEachThrowing_pure:
  assumes "\<And>k s. k < length xs \<Longrightarrow> f (xs ! k) k s = (g (xs ! k) k s, None)"
  shows "forEachThrowing xs f s = (forEach xs g s, None)"
  unfolding forEachThrowing_def forEach_def using assms by (intro forEachFrom_pure) simp

lemma forEachThrowing_cong:
  assumes "\<And>k s. k < length xs \<Longrightarrow> f (xs ! k) k s = g (xs ! k) k s"
  shows "forEachThrowing xs f s = forEachThrowing xs g s"
  unfolding forEachThrowing_def using assms by (intro forEachFrom_cong) simp

lemma forEachThrowing_fails_at:
  assumes m: "m < length xs"
    and ok: "\<And>k s. k < m \<Longrightarrow> snd (f (xs ! k) k s) = None"
    and bad: "\<And>s. f (xs ! m) m s = (s, Some e)"
  shows "forEachThrowing xs f s = (fst (forEachThrowing (take m xs) f s), Some e)"
proof -
  have none: "snd (forEachFrom n ys f s) = None"
    if "\<And>k s. k < length ys \<Longrightarrow> snd (f (ys ! k) (n + k) s) = None" for n ys s
    using that
  proof (induction ys arbitrary: n s)
    case Nil
    then show ?case by simp
  next
    case (Cons y ys)
    have head: "snd (f y n s) = None" using Cons.prems[of 0 s] by simp
    have tail: "snd (forEachFrom (Suc n) ys f s') = None" for s'
      using Cons.prems[of "Suc k" for k] by (intro Cons.IH) simp
    show ?case using head tail by (cases "f y n s") (auto split: option.splits)
  qed
  have prefix: "snd (forEachFrom 0 (take m xs) f s) = None"
    using m by (intro none) (simp add: ok)
  have split: "xs = take m xs @ xs ! m # drop (Suc m) xs"
    using m by (simp add: id_take_nth_drop)
  have len: "length (take m xs) = m" using m by simp
  have "forEachFrom 0 xs f s = forEachFrom 0 (take m xs @ xs ! m # drop (Suc m) xs) f s"
    using split by simp
  also have "\<dots> = (fst (forEachFrom 0 (take m xs) f s), Some e)"
    using prefix unfolding forEachFrom_append len
    by (cases "forEachFrom 0 (take m xs) f s") (simp add: bad)
  finally show ?thesis by (simp add: forEachThrowing_def)
qed

lemma forEachFrom_frame:
  assumes "\<And>x i s. q (fst (f x i s)) = q s"
  shows "q (fst (forEachFrom n xs f s)) = q s"
proof (induction xs arbitrary: n s)
  case Nil
  then show ?case by simp
next
  case (Cons x xs)
  show ?case
    using assms[of x n s] Cons.IH[of "Suc n" "fst (f x n s)"]
    by (cases "f x n s") (auto split: option.splits)
qed

lemma forEachThrowing_frame:
  assumes "\<And>x i s. q (fst (f x i s)) = q s"
  shows "q (fst (forEachThrowing xs f s)) = q s"
  unfolding forEachThrowing_def using assms by (rule forEachFrom_frame)

section \<open>Addressing by column key\<close>

lemma columnKey_length: "length (columnKey k) = 1"
  by (simp add: columnKey_def fromCharCode_def)

lemma columnKey_small: "k < 65471 \<Longrightarrow> columnKey k = [65 + k]"
  by (simp add: columnKey_def fromCharCode_def nat_add_distrib)

lemma columnKey_letter: "k < 26 \<Longrightarrow> columnKey k = getExcelColumnLetter (int k + 1)"
proof -
  assume k: "k < 26"
  have "getExcelColumnLetter (int k + 1) = getExcelColumnLetter 0 @ [nat (65 + int k)]"
    using k letter_rec[of "int k + 1"] by simp
  then show ?thesis using k by (simp add: letter_nonpos columnKey_small nat_add_distrib)
qed

lemma getCell_columnKey:
  assumes "k < 26"
  shows "getCell (columnKey k @ str ''1'') = Inr (k + 1, 1)"
  using assms by (simp add: columnKey_small getCell_def decodeAddress_def str_def)

lemma getCell_columnKey_26:
  "getCell (columnKey 26 @ str ''1'') = Inl (Error (str ''A Cell needs a Row''))"
  by (simp add: columnKey_small getCell_def decodeAddress_def str_def)

lemma rowGetCell_columnKey:
  assumes "k < 26"
  shows "rowGetCell r (columnKey k) = Inr (k + 1, r)"
  using assms by (simp add: columnKey_small rowGetCell_def l2n_def columnNumber_def)

lemma rowGetCell_columnKey_26:
  "rowGetCell r (columnKey 26) = Inl (Error (str ''Out of bounds. Invalid column letter: [''))"
  by (simp add: columnKey_small rowGetCell_def l2n_def str_def)

lemma master_no_merges: "merges ws = [] \<Longrightarrow> master ws cell = cell"
  by (simp add: master_def)

lemma setCellValue_frame [simp]:
  "sheetName (setCellValue ws a v) = sheetName ws"
  "sheetPageSetup (setCellValue ws a v) = sheetPageSetup ws"
  "rowFont (setCellValue ws a v) = rowFont ws"
  "columnWidth (setCellValue ws a v) = columnWidth ws"
  "columnAlignment (setCellValue ws a v) = columnAlignment ws"
  "merges (setCellValue ws a v) = merges ws"
  by (simp_all add: setCellValue_def)

lemma setCellValue_cells: "cells (setCellValue ws a v) = (cells ws)(master ws a \<mapsto> v)"
  by (simp add: setCellValue_def)

lemma setCellValue_cells_no_merges:
  "merges ws = [] \<Longrightarrow> cells (setCellValue ws a v) = (cells ws)(a \<mapsto> v)"
  by (simp add: setCellValue_def master_no_merges)

subsection \<open>setHeaders\<close>

lemma setHeaders_upto_26:
  assumes "length hs \<le> 26"
  shows "setHeaders ws hs =
           (forEach hs (\<lambda>header index ws. setCellValue ws (index + 1, 1) (JStr header)) ws, None)"
  unfolding setHeaders_def
  using assms by (intro forEachThrowing_pure) (simp add: getCell_columnKey)

lemma setHeaders_over_26:
  assumes "26 < length hs"
  shows "setHeaders ws hs = (fst (setHeaders ws (take 26 hs)), Some (Error (str ''A Cell needs a Row'')))"
  unfolding setHeaders_def
  using assms
  by (intro forEachThrowing_fails_at) (simp_all add: getCell_columnKey getCell_columnKey_26)

lemma setHeaders_frame:
  "sheetName (fst (setHeaders ws hs)) = sheetName ws"
  "sheetPageSetup (fst (setHeaders ws hs)) = sheetPageSetup ws"
  "rowFont (fst (setHeaders ws hs)) = rowFont ws"
  "columnWidth (fst (setHeaders ws hs)) = columnWidth ws"
  "columnAlignment (fst (setHeaders ws hs)) = columnAlignment ws"
  "merges (fst (setHeaders ws hs)) = merges ws"
  unfolding setHeaders_def
  by (rule forEachThrowing_frame, simp split: sum.splits)+

lemma setHeaders_by_letter_eq:
  assumes "length hs \<le> 26"
  shows "setHeaders ws hs = setHeaders_by_letter ws hs"
  unfolding setHeaders_def setHeaders_by_letter_def
  using assms by (intro forEachThrowing_cong) (simp add: columnKey_letter)

lemma setHeaders_cell:
  assumes "merges ws = []" "k < length hs" "length hs \<le> 26"
  shows "cells (fst (setHeaders ws hs)) (k + 1, 1) = Some (JStr (hs ! k))"
proof -
  let ?f = "\<lambda>header index ws. setCellValue ws (index + 1, 1) (JStr header)"
  have later: "\<forall>k'<length hs. k < k' \<longrightarrow> (k' + 1, 1::nat) \<noteq> (k + 1, 1)" by simp
  have "cells (forEach hs ?f ws) (k + 1, 1) = Some (JStr (hs ! k))"
    by (rule forEach_written_inv[where I = "\<lambda>ws. merges ws = []" and p = cells
          and key = "\<lambda>i. (i + 1, 1)" and v = JStr, OF assms(1) _ _ assms(2) later])
       (simp_all add: setCellValue_cells_no_merges)
  then show ?thesis using assms(3) by (simp add: setHeaders_upto_26)
qed

lemma setHeaders_other:
  assumes "merges ws = []" "length hs \<le> 26" "\<forall>k<length hs. (k + 1, 1) \<noteq> a"
  shows "cells (fst (setHeaders ws hs)) a = cells ws a"
proof -
  let ?f = "\<lambda>header index ws. setCellValue ws (index + 1, 1) (JStr header)"
  have "cells (forEach hs ?f ws) a = cells ws a"
    by (rule forEach_untouched_inv[where I = "\<lambda>ws. merges ws = []" and p = cells
          and key = "\<lambda>i. (i + 1, 1)" and v = JStr, OF assms(1) _ _ assms(3)])
       (simp_all add: setCellValue_cells_no_merges)
  then show ?thesis using assms(2) by (simp add: setHeaders_upto_26)
qed

subsection \<open>addDataRow\<close>

lemma addDataRow_upto_26:
  assumes "length items \<le> 26"
  shows "addDataRow ws r items =
           (forEach items (\<lambda>item index ws. setCellValue ws (index + 1, r) item) ws, None)"
  unfolding addDataRow_def
  using assms by (intro forEachThrowing_pure) (simp add: rowGetCell_columnKey)

lemma addDataRow_over_26:
  assumes "26 < length items"
  shows "addDataRow ws r items =
           (fst (addDataRow ws r (take 26 items)),
            Some (Error (str ''Out of bounds. Invalid column letter: ['')))"
  unfolding addDataRow_def
  using assms
  by (intro forEachThrowing_fails_at) (simp_all add: rowGetCell_columnKey rowGetCell_columnKey_26)

lemma addDataRow_frame:
  "sheetName (fst (addDataRow ws r items)) = sheetName ws"
  "sheetPageSetup (fst (addDataRow ws r items)) = sheetPageSetup ws"
  "rowFont (fst (addDataRow ws r items)) = rowFont ws"
  "columnWidth (fst (addDataRow ws r items)) = columnWidth ws"
  "columnAlignment (fst (addDataRow ws r items)) = columnAlignment ws"
  "merges (fst (addDataRow ws r items)) = merges ws"
  unfolding addDataRow_def
  by (rule forEachThrowing_frame, simp split: sum.splits)+

lemma addDataRow_by_letter_eq:
  assumes "length items \<le> 26"
  shows "addDataRow ws r items = addDataRow_by_letter ws r items"
  unfolding addDataRow_def addDataRow_by_letter_def
  using assms by (intro forEachThrowing_cong) (simp add: columnKey_letter)

lemma addDataRow_cell:
  assumes "merges ws = []" "k < length items" "length items \<le> 26"
  shows "cells (fst (addDataRow ws r items)) (k + 1, r) = Some (items ! k)"
proof -
  let ?f = "\<lambda>item index ws. setCellValue ws (index + 1, r) item"
  have later: "\<forall>k'<length items. k < k' \<longrightarrow> (k' + 1, r) \<noteq> (k + 1, r)" by simp
  have "cells (forEach items ?f ws) (k + 1, r) = Some (items ! k)"
    by (rule forEach_written_inv[where I = "\<lambda>ws. merges ws = []" and p = cells
          and key = "\<lambda>i. (i + 1, r)" and v = "\<lambda>x. x", OF assms(1) _ _ assms(2) later])
       (simp_all add: setCellValue_cells_no_merges)
  then show ?thesis using assms(3) by (simp add: addDataRow_upto_26)
qed

lemma addDataRow_other:
  assumes "merges ws = []" "length items \<le> 26" "\<forall>k<length items. (k + 1, r) \<noteq> a"
  shows "cells (fst (addDataRow ws r items)) a = cells ws a"
proof -
  let ?f = "\<lambda>item index ws. setCellValue ws (index + 1, r) item"
  have "cells (forEach items ?f ws) a = cells ws a"
    by (rule forEach_untouched_inv[where I = "\<lambda>ws. merges ws = []" and p = cells
          and key = "\<lambda>i. (i + 1, r)" and v = "\<lambda>x. x", OF assms(1) _ _ assms(3)])
       (simp_all add: setCellValue_cells_no_merges)
  then show ?thesis using assms(2) by (simp add: addDataRow_upto_26)
qed

section \<open>The sheets createBuffer creates\<close>

lemma makeRowsBold_one:
  "makeRowsBold ws (Many [r]) = ws\<lparr>rowFont := (rowFont ws)(r \<mapsto> \<lparr>bold = True\<rparr>)\<rparr>"
  by (simp add: makeRowsBold_def)

lemma setColumnWidths_frame:
  "sheetName (setColumnWidths ws widths) = sheetName ws"
  "sheetPageSetup (setColumnWidths ws widths) = sheetPageSetup ws"
  "rowFont (setColumnWidths ws widths) = rowFont ws"
  "cells (setColumnWidths ws widths) = cells ws"
  "merges (setColumnWidths ws widths) = merges ws"
  unfolding setColumnWidths_def by (rule forEach_frame, simp)+

lemma dataRows_frame:
  "sheetName (fst (forEachThrowing rows (\<lambda>dataItem index ws. addDataRow ws (r index) (vs dataItem)) ws)) = sheetName ws"
  "sheetPageSetup (fst (forEachThrowing rows (\<lambda>dataItem index ws. addDataRow ws (r index) (vs dataItem)) ws)) = sheetPageSetup ws"
  "rowFont (fst (forEachThrowing rows (\<lambda>dataItem index ws. addDataRow ws (r index) (vs dataItem)) ws)) = rowFont ws"
  "columnWidth (fst (forEachThrowing rows (\<lambda>dataItem index ws. addDataRow ws (r index) (vs dataItem)) ws)) = columnWidth ws"
  "columnAlignment (fst (forEachThrowing rows (\<lambda>dataItem index ws. addDataRow ws (r index) (vs dataItem)) ws)) = columnAlignment ws"
  "merges (fst (forEachThrowing rows (\<lambda>dataItem index ws. addDataRow ws (r index) (vs dataItem)) ws)) = merges ws"
  by (rule forEachThrowing_frame, simp add: addDataRow_frame)+

lemma dataRows_pure:
  assumes "\<forall>d. length (vs d) \<le> 26"
  shows "forEachThrowing rows (\<lambda>dataItem index ws. addDataRow ws (r index) (vs dataItem)) ws =
           (forEach rows (\<lambda>dataItem index ws. fst (addDataRow ws (r index) (vs dataItem))) ws, None)"
  using assms by (intro forEachThrowing_pure) (simp add: addDataRow_upto_26)

lemma dataRows_other:
  assumes "merges ws = []" "\<forall>d. length (vs d) \<le> 26"
    and "\<forall>j<length rows. \<forall>k<length (vs (rows ! j)). (k + 1, r j) \<noteq> a"
  shows "cells (forEach rows (\<lambda>dataItem index ws. fst (addDataRow ws (r index) (vs dataItem))) ws) a
           = cells ws a"
  using assms(3)
proof (induction rows rule: rev_induct)
  case Nil
  then show ?case by (simp add: forEach_Nil)
next
  case (snoc x xs)
  let ?f = "\<lambda>dataItem index ws. fst (addDataRow ws (r index) (vs dataItem))"
  have inv: "merges (forEach xs ?f ws) = []"
    by (rule forEach_invariant[where I = "\<lambda>ws. merges ws = []", OF assms(1)])
       (simp add: addDataRow_frame)
  have earlier: "\<forall>j<length xs. \<forall>k<length (vs (xs ! j)). (k + 1, r j) \<noteq> a"
  proof (intro allI impI)
    fix j k assume j: "j < length xs" and k: "k < length (vs (xs ! j))"
    then show "(k + 1, r j) \<noteq> a"
      using snoc.prems[rule_format, of j k] by (simp add: nth_append)
  qed
  have last: "\<forall>k<length (vs x). (k + 1, r (length xs)) \<noteq> a"
    using snoc.prems[rule_format, of "length xs"] by simp
  have len: "length (vs x) \<le> 26" using assms(2) by simp
  show ?case
    using snoc.IH[OF earlier] by (simp add: forEach_snoc addDataRow_other[OF inv len last])
qed

lemma dataRows_cell:
  assumes "merges ws = []" "\<forall>d. length (vs d) \<le> 26"
    and "j < length rows" "k < length (vs (rows ! j))" "inj_on r {..<length rows}"
  shows "cells (forEach rows (\<lambda>dataItem index ws. fst (addDataRow ws (r index) (vs dataItem))) ws)
           (k + 1, r j) = Some (vs (rows ! j) ! k)"
  using assms(3,4,5)
proof (induction rows rule: rev_induct)
  case Nil
  then show ?case by simp
next
  case (snoc x xs)
  let ?f = "\<lambda>dataItem index ws. fst (addDataRow ws (r index) (vs dataItem))"
  have inv: "merges (forEach xs ?f ws) = []"
    by (rule forEach_invariant[where I = "\<lambda>ws. merges ws = []", OF assms(1)])
       (simp add: addDataRow_frame)
  have len: "length (vs x) \<le> 26" using assms(2) by simp
  show ?case
  proof (cases "j = length xs")
    case True
    with snoc.prems addDataRow_cell[OF inv _ len, of k "r (length xs)"]
    show ?thesis by (simp add: forEach_snoc)
  next
    case False
    with snoc.prems(1) have j: "j < length xs" by simp
    have inj: "inj_on r {..<length xs}"
      using snoc.prems(3) by (rule inj_on_subset) auto
    have "r (length xs) \<noteq> r j"
      using inj_onD[OF snoc.prems(3), of "length xs" j] j by auto
    then have last: "\<forall>k'<length (vs x). (k' + 1, r (length xs)) \<noteq> (k + 1, r j)"
      by simp
    show ?thesis
      using snoc.IH[OF j _ inj] snoc.prems(2) j addDataRow_other[OF inv len last]
      by (simp add: forEach_snoc nth_append)
  qed
qed

lemma inSheet_last: "inSheet (length wb) f (wb @ [ws]) = wb @ [f ws]"
  by (simp add: inSheet_def)

lemma inSheetThrowing_last:
  "inSheetThrowing (length wb) f (wb @ [ws]) = (wb @ [fst (f ws)], snd (f ws))"
  by (simp add: inSheetThrowing_def split: prod.splits)

lemma labelledSheet_upto_26:
  assumes "length h \<le> 26"
  shows "setHeaders (makeRowsBold (newWorksheet None \<lparr>paperSize = 9, orientation = str ''landscape''\<rparr>) (Many [Suc 0]))
           (map name (Object_values h)) = (labelledSheet h, None)"
  using assms setHeaders_upto_26[of "map name (Object_values h)"]
  by (simp add: labelledSheet_def Object_values_def)

lemma labelledSheet_over_26:
  assumes "26 < length h"
  shows "setHeaders (makeRowsBold (newWorksheet None \<lparr>paperSize = 9, orientation = str ''landscape''\<rparr>) (Many [Suc 0]))
           (map name (Object_values h)) = (labelledSheet h, Some (Error (str ''A Cell needs a Row'')))"
  using assms setHeaders_over_26[of "map name (Object_values h)"]
  by (simp add: labelledSheet_def Object_values_def)

lemma dataSheet_no_error:
  assumes "length h \<le> 26"
  shows "forEachThrowing rows (\<lambda>dataItem index ws.
            addDataRow ws (Suc (Suc index)) (map (get_property dataItem) (Object_keys h)))
          (headerSheet h) = (dataSheet h rows, None)"
proof -
  have "\<forall>d. length (map (get_property d) (Object_keys h)) \<le> 26"
    using assms by (simp add: Object_keys_def)
  from dataRows_pure[where vs = "\<lambda>d. map (get_property d) (Object_keys h)"
      and r = "\<lambda>index. 2 + index", OF this]
  show ?thesis by (simp add: dataSheet_def)
qed

lemma sheetStep_over_26:
  assumes "26 < length (headers ! i)"
  shows "sheetStep headers data i wb =
           (wb @ [labelledSheet (headers ! i)], Some (Error (str ''A Cell needs a Row'')))"
  using assms
  by (simp add: sheetStep_def addWorksheet_def inSheet_last inSheetThrowing_last Let_def
      labelledSheet_over_26)

lemma sheetStep_RowArray:
  assumes "length (headers ! i) \<le> 26" "array_get data i = Some (RowArray rows)"
  shows "sheetStep headers data i wb = (wb @ [dataSheet (headers ! i) rows], None)"
  using assms
  by (simp add: sheetStep_def addWorksheet_def inSheet_last inSheetThrowing_last Let_def
      labelledSheet_upto_26 dataSheet_no_error headerSheet_def[symmetric])

lemma sheetStep_TypeError:
  assumes "length (headers ! i) \<le> 26"
    and "array_get data i = None \<or> (\<exists>r. array_get data i = Some (RowObject r))"
  shows "sheetStep headers data i wb = (wb @ [headerSheet (headers ! i)], Some TypeError)"
  using assms
  by (auto simp add: sheetStep_def addWorksheet_def inSheet_last inSheetThrowing_last Let_def
      labelledSheet_upto_26 headerSheet_def[symmetric])

lemma sheetStep_cases:
  "(length (headers ! i) \<le> 26 \<and> (\<exists>rows. array_get data i = Some (RowArray rows)
      \<and> sheetStep headers data i wb = (wb @ [dataSheet (headers ! i) rows], None)))
   \<or> (length (headers ! i) \<le> 26
      \<and> sheetStep headers data i wb = (wb @ [headerSheet (headers ! i)], Some TypeError))
   \<or> (26 < length (headers ! i)
      \<and> sheetStep headers data i wb =
          (wb @ [labelledSheet (headers ! i)], Some (Error (str ''A Cell needs a Row''))))"
proof (cases "length (headers ! i) \<le> 26")
  case False
  then show ?thesis using sheetStep_over_26[of headers i data wb] by simp
next
  case True
  show ?thesis
  proof (cases "array_get data i")
    case None
    then show ?thesis using True sheetStep_TypeError by blast
  next
    case (Some d)
    then show ?thesis
      using True sheetStep_TypeError sheetStep_RowArray by (cases d) blast+
  qed
qed

lemma labelledSheet_name:
  "sheetName (labelledSheet h) = None"
  "sheetPageSetup (labelledSheet h) = \<lparr>paperSize = 9, orientation = str ''landscape''\<rparr>"
  "merges (labelledSheet h) = []"
  "rowFont (labelledSheet h) = [1 \<mapsto> \<lparr>bold = True\<rparr>]"
  "columnWidth (labelledSheet h) = Map.empty"
  by (simp_all add: labelledSheet_def setHeaders_frame makeRowsBold_one newWorksheet_def)

lemma headerSheet_name:
  "sheetName (headerSheet h) = None"
  "sheetPageSetup (headerSheet h) = \<lparr>paperSize = 9, orientation = str ''landscape''\<rparr>"
  "merges (headerSheet h) = []"
  "rowFont (headerSheet h) = [1 \<mapsto> \<lparr>bold = True\<rparr>]"
  by (simp_all add: headerSheet_def setColumnWidths_frame labelledSheet_name)

lemma dataSheet_name:
  "sheetName (dataSheet h rows) = None"
  "sheetPageSetup (dataSheet h rows) = \<lparr>paperSize = 9, orientation = str ''landscape''\<rparr>"
  "merges (dataSheet h rows) = []"
  "rowFont (dataSheet h rows) = [1 \<mapsto> \<lparr>bold = True\<rparr>]"
  by (simp_all add: dataSheet_def dataRows_frame headerSheet_name)

lemma created_sheets_unnamed:
  "unnamed_landscape (labelledSheet h)" "unnamed_landscape (headerSheet h)"
  "unnamed_landscape (dataSheet h rows)"
  by (simp_all add: unnamed_landscape_def labelledSheet_name headerSheet_name dataSheet_name)

lemma sheetStep_shape:
  "\<exists>ws. fst (sheetStep headers data i wb) = wb @ [ws] \<and> unnamed_landscape ws
     \<and> snd (sheetStep headers data i wb) \<noteq> Some sizeError"
  using sheetStep_cases[of headers i data wb]
  by (auto simp add: created_sheets_unnamed sizeError_def str_def)

lemma createBuffer_loop_invariant:
  assumes "createBuffer_loop headers data i wb = (wb', r)" "list_all unnamed_landscape wb"
  shows "list_all unnamed_landscape wb' \<and> r \<noteq> Some sizeError"
  using assms
proof (induction headers data i wb rule: createBuffer_loop.induct)
  case (1 headers data i workbook)
  show ?case
  proof (cases "i < length headers")
    case True
    obtain wb1 r1 where step: "sheetStep headers data i workbook = (wb1, r1)"
      by (cases "sheetStep headers data i workbook")
    from sheetStep_shape[of headers data i workbook] step
    obtain ws where ws: "wb1 = workbook @ [ws]" "unnamed_landscape ws" "r1 \<noteq> Some sizeError"
      by auto
    have sheets: "list_all unnamed_landscape wb1" using ws "1.prems"(2) by simp
    show ?thesis
    proof (cases r1)
      case None
      with "1.prems"(1) True step have "createBuffer_loop headers data (i + 1) wb1 = (wb', r)"
        by (simp add: createBuffer_loop.simps[of headers data i])
      with "1.IH"[OF True step[symmetric] None] sheets show ?thesis by simp
    next
      case (Some e)
      with "1.prems"(1) True step have "wb' = wb1" "r = r1"
        by (simp_all add: createBuffer_loop.simps[of headers data i])
      with sheets ws(3) show ?thesis by simp
    qed
  next
    case False
    with "1.prems" show ?thesis by (simp add: createBuffer_loop.simps[of headers data i])
  qed
qed

lemma createBuffer_loop_error:
  "createBuffer_loop headers data 0 [] = (wb, Some e) \<Longrightarrow> e \<noteq> sizeError"
  using createBuffer_loop_invariant[of headers data 0 "[]" wb "Some e"] by simp

lemma createBuffer_sizeError_iff:
  "snd (createBuffer headers data worksheetNames) = Inl sizeError \<longleftrightarrow>
     boolToNumber (length (normalize headers) \<noteq> length (normalize_data data))
       \<noteq> length (normalize worksheetNames)"
  by (auto simp add: createBuffer_def Let_def createWorkbook_def
      split: prod.splits option.splits dest: createBuffer_loop_error)

text \<open>
  Claim C7. Whenever \<open>createBuffer\<close> throws the size error, it has created no workbook
  and no worksheet.
\<close>

theorem createBuffer_validation_before_workbook:
  assumes "snd (createBuffer headers data worksheetNames) = Inl sizeError"
  shows "fst (createBuffer headers data worksheetNames) = None"
  using assms
  by (auto simp add: createBuffer_def Let_def createWorkbook_def
      split: prod.splits option.splits if_splits dest: createBuffer_loop_error)

theorem createBuffer_validation_before_workbook_witness:
  "snd (createBuffer (Many [[], []]) (DataArray [RowArray [], RowArray []]) (Many [str ''S'']))
     = Inl sizeError
   \<and> fst (createBuffer (Many [[], []]) (DataArray [RowArray [], RowArray []]) (Many [str ''S'']))
     = None"
proof -
  have h: "snd (createBuffer (Many [[], []]) (DataArray [RowArray [], RowArray []]) (Many [str ''S'']))
     = Inl sizeError"
    by (simp add: createBuffer_def boolToNumber_def)
  show ?thesis using h createBuffer_validation_before_workbook [OF h] by blast
qed

text \<open>
  Claim C1. \<open>createBuffer\<close> is to throw the size error exactly when the three
  normalised lengths are not all equal. With three arrays of length one, which are of
  equal length, the call throws the size error; with lengths 1, 2 and 1, which are not,
  it does not throw it. (When it throws is \<open>createBuffer_sizeError_iff\<close>.)
\<close>

theorem createBuffer_equal_sizes_rejected:
  "createBuffer (Many [h]) (DataArray [d]) (Many [s]) = (None, Inl sizeError)
   \<and> snd (createBuffer (Many [h]) (DataArray [d1, d2]) (Many [s])) \<noteq> Inl sizeError"
  by (simp add: createBuffer_sizeError_iff boolToNumber_def) (simp add: createBuffer_def boolToNumber_def)

lemma createBuffer_sheets_unnamed:
  assumes "fst (createBuffer headers data worksheetNames) = Some wb"
  shows "list_all unnamed_landscape wb"
  using assms createBuffer_loop_invariant[of "normalize headers" "normalize_data data" 0 "[]"]
  by (auto simp add: createBuffer_def Let_def createWorkbook_def split: if_splits prod.splits option.splits)

section \<open>The contents of a sheet\<close>

lemma labelledSheet_cell:
  assumes "k < length h" "length h \<le> 26"
  shows "cells (labelledSheet h) (k + 1, 1) = Some (JStr (name (snd (h ! k))))"
  using assms setHeaders_cell[of _ k "map name (Object_values h)"]
  by (simp add: labelledSheet_def makeRowsBold_one newWorksheet_def Object_values_def)

lemma labelledSheet_other:
  assumes "length h \<le> 26" "\<forall>k<length h. (k + 1, 1) \<noteq> a"
  shows "cells (labelledSheet h) a = None"
  using assms setHeaders_other[of _ "map name (Object_values h)" a]
  by (simp add: labelledSheet_def makeRowsBold_one newWorksheet_def Object_values_def)

lemma labelledSheet_take:
  assumes "26 < length h"
  shows "labelledSheet h = labelledSheet (take 26 h)"
  using assms setHeaders_over_26[of "map name (Object_values h)"]
  by (simp add: labelledSheet_def Object_values_def take_map)

lemma labelledSheet_first_26:
  assumes "26 < length h" "k < 26"
  shows "cells (labelledSheet h) (k + 1, 1) = Some (JStr (name (snd (h ! k))))"
  using assms labelledSheet_cell[of k "take 26 h"] by (simp add: labelledSheet_take)

lemma labelledSheet_far_columns:
  assumes "26 < c"
  shows "cells (labelledSheet h) (c, r) = None"
proof (cases "26 < length h")
  case True
  have "cells (labelledSheet (take 26 h)) (c, r) = None"
    using assms by (intro labelledSheet_other) auto
  then show ?thesis using True by (simp add: labelledSheet_take)
next
  case False
  then show ?thesis using assms by (intro labelledSheet_other) auto
qed

lemma headerSheet_cells: "cells (headerSheet h) = cells (labelledSheet h)"
  by (simp add: headerSheet_def setColumnWidths_frame)

lemma dataSheet_pure:
  assumes "length h \<le> 26"
  shows "dataSheet h rows =
           forEach rows (\<lambda>dataItem index ws.
             fst (addDataRow ws (2 + index) (map (get_property dataItem) (Object_keys h))))
           (headerSheet h)"
proof -
  have "\<forall>d. length (map (get_property d) (Object_keys h)) \<le> 26"
    using assms by (simp add: Object_keys_def)
  from dataRows_pure[where vs = "\<lambda>d. map (get_property d) (Object_keys h)"
      and r = "\<lambda>index. 2 + index", OF this]
  show ?thesis by (simp add: dataSheet_def)
qed

lemma dataSheet_cells_of_headerSheet:
  assumes "length h \<le> 26" "\<forall>j<length rows. \<forall>k<length h. (k + 1, 2 + j) \<noteq> a"
  shows "cells (dataSheet h rows) a = cells (labelledSheet h) a"
proof -
  have len: "\<forall>d. length (map (get_property d) (Object_keys h)) \<le> 26"
    using assms(1) by (simp add: Object_keys_def)
  have "cells (dataSheet h rows) a = cells (headerSheet h) a"
    unfolding dataSheet_pure[OF assms(1)]
    using assms(2)
    by (intro dataRows_other[where vs = "\<lambda>d. map (get_property d) (Object_keys h)", OF _ len])
       (simp_all add: headerSheet_name Object_keys_def)
  then show ?thesis by (simp add: headerSheet_cells)
qed

lemma dataSheet_header_cell:
  assumes "k < length h" "length h \<le> 26"
  shows "cells (dataSheet h rows) (k + 1, 1) = Some (JStr (name (snd (h ! k))))"
proof -
  have "cells (dataSheet h rows) (k + 1, 1) = cells (labelledSheet h) (k + 1, 1)"
    using assms(2) by (intro dataSheet_cells_of_headerSheet) simp_all
  then show ?thesis using labelledSheet_cell[OF assms] by simp
qed

lemma dataSheet_data_cell:
  assumes "j < length rows" "k < length h" "length h \<le> 26"
  shows "cells (dataSheet h rows) (k + 1, 2 + j) = Some (get_property (rows ! j) (fst (h ! k)))"
proof -
  let ?vs = "\<lambda>dataItem. map (get_property dataItem) (Object_keys h)"
  have len: "\<forall>d. length (?vs d) \<le> 26" using assms(3) by (simp add: Object_keys_def)
  have k: "k < length (?vs (rows ! j))" using assms(2) by (simp add: Object_keys_def)
  have inj: "inj_on (\<lambda>index. 2 + index) {..<length rows}" by (simp add: inj_on_def)
  have m: "merges (headerSheet h) = []" by (rule headerSheet_name)
  have "cells (dataSheet h rows) (k + 1, 2 + j) = Some (?vs (rows ! j) ! k)"
    unfolding dataSheet_pure[OF assms(3)]
    by (rule dataRows_cell[where r = "\<lambda>index. 2 + index" and vs = ?vs, OF m len assms(1) k inj])
  then show ?thesis using assms(2) by (simp add: Object_keys_def)
qed

lemma dataSheet_far_columns:
  assumes "length h \<le> 26" "length h < c"
  shows "cells (dataSheet h rows) (c, r) = None"
proof -
  have "cells (dataSheet h rows) (c, r) = cells (labelledSheet h) (c, r)"
    using assms by (intro dataSheet_cells_of_headerSheet) auto
  also have "\<dots> = None" using assms by (intro labelledSheet_other) auto
  finally show ?thesis .
qed

lemma dataSheet_row_and_columns:
  "rowFont (dataSheet h rows) 1 = Some \<lparr>bold = True\<rparr>"
  "k < length h \<Longrightarrow> columnWidth (dataSheet h rows) (k + 1) = Some (width (snd (h ! k)))"
  "k < length h \<Longrightarrow> columnAlignment (dataSheet h rows) (k + 1) =
     Some \<lparr>vertical = str ''middle'', horizontal = str ''center'', wrapText = True\<rparr>"
  using setColumnWidths_column[of k "map width (Object_values h)" "labelledSheet h"]
  by (simp_all add: dataSheet_def dataRows_frame headerSheet_def setColumnWidths_frame
      labelledSheet_name Object_values_def)

lemma createBuffer_loop_success:
  assumes "createBuffer_loop headers data i wb = (wb', None)"
  shows "\<exists>sheets. wb' = wb @ sheets \<and> length sheets = length headers - i
           \<and> (\<forall>j<length headers - i. length (headers ! (i + j)) \<le> 26
                 \<and> (\<exists>rows. array_get data (i + j) = Some (RowArray rows)
                       \<and> sheets ! j = dataSheet (headers ! (i + j)) rows))"
  using assms
proof (induction headers data i wb rule: createBuffer_loop.induct)
  case (1 headers data i workbook)
  show ?case
  proof (cases "i < length headers")
    case True
    obtain wb1 r1 where step: "sheetStep headers data i workbook = (wb1, r1)"
      by (cases "sheetStep headers data i workbook")
    have r1: "r1 = None"
      using "1.prems" True step by (cases r1) (simp_all add: createBuffer_loop.simps[of headers data i])
    from sheetStep_cases[of headers i data workbook] step r1
    obtain rows where len: "length (headers ! i) \<le> 26"
      and rows: "array_get data i = Some (RowArray rows)"
      and wb1: "wb1 = workbook @ [dataSheet (headers ! i) rows]"
      by auto
    have next_loop: "createBuffer_loop headers data (i + 1) wb1 = (wb', None)"
      using "1.prems" True step r1 by (simp add: createBuffer_loop.simps[of headers data i])
    from "1.IH"[OF True step[symmetric] r1 next_loop]
    obtain sheets where s: "wb' = wb1 @ sheets"
      "length sheets = length headers - (i + 1)"
      "\<forall>j<length headers - (i + 1). length (headers ! (i + 1 + j)) \<le> 26
          \<and> (\<exists>rows. array_get data (i + 1 + j) = Some (RowArray rows)
                 \<and> sheets ! j = dataSheet (headers ! (i + 1 + j)) rows)"
      by blast
    let ?sheets = "dataSheet (headers ! i) rows # sheets"
    have a: "wb' = workbook @ ?sheets" using s(1) wb1 by simp
    have b: "length ?sheets = length headers - i" using s(2) True by simp
    have c: "\<forall>j<length headers - i. length (headers ! (i + j)) \<le> 26
                 \<and> (\<exists>rows. array_get data (i + j) = Some (RowArray rows)
                       \<and> ?sheets ! j = dataSheet (headers ! (i + j)) rows)"
    proof (intro allI impI)
      fix j assume j: "j < length headers - i"
      show "length (headers ! (i + j)) \<le> 26
                 \<and> (\<exists>rows. array_get data (i + j) = Some (RowArray rows)
                       \<and> ?sheets ! j = dataSheet (headers ! (i + j)) rows)"
      proof (cases j)
        case 0
        then show ?thesis using rows len by simp
      next
        case (Suc j')
        with j have "j' < length headers - (i + 1)" by simp
        with s(3) have "length (headers ! (i + 1 + j')) \<le> 26
          \<and> (\<exists>rows. array_get data (i + 1 + j') = Some (RowArray rows)
                 \<and> sheets ! j' = dataSheet (headers ! (i + 1 + j')) rows)" by blast
        then show ?thesis using Suc by simp
      qed
    qed
    show ?thesis using a b c by blast
  next
    case False
    with "1.prems" show ?thesis by (simp add: createBuffer_loop.simps[of headers data i])
  qed
qed

lemma createBuffer_success:
  assumes "createBuffer headers data worksheetNames = (Some wb, Inr b)"
  shows "b = XlsxBuffer wb" "length wb = length (normalize headers)"
    "i < length (normalize headers) \<Longrightarrow> length (normalize headers ! i) \<le> 26
       \<and> (\<exists>rows. array_get (normalize_data data) i = Some (RowArray rows)
         \<and> wb ! i = dataSheet (normalize headers ! i) rows)"
proof -
  from assms have loop: "createBuffer_loop (normalize headers) (normalize_data data) 0 [] = (wb, None)"
    and b: "b = XlsxBuffer wb"
    by (auto simp add: createBuffer_def Let_def createWorkbook_def getBuffer_def
        split: if_splits prod.splits option.splits)
  show "b = XlsxBuffer wb" by (rule b)
  from createBuffer_loop_success[OF loop]
  obtain sheets where s: "wb = [] @ sheets" "length sheets = length (normalize headers) - 0"
    "\<forall>j<length (normalize headers) - 0. length (normalize headers ! (0 + j)) \<le> 26
        \<and> (\<exists>rows. array_get (normalize_data data) (0 + j) = Some (RowArray rows)
        \<and> sheets ! j = dataSheet (normalize headers ! (0 + j)) rows)"
    by blast
  show "length wb = length (normalize headers)" using s(1,2) by simp
  show "length (normalize headers ! i) \<le> 26
       \<and> (\<exists>rows. array_get (normalize_data data) i = Some (RowArray rows)
         \<and> wb ! i = dataSheet (normalize headers ! i) rows)" if "i < length (normalize headers)"
    using s(1,3) that by simp
qed

section \<open>Column letters as the library reads them\<close>

lemma decode_letters:
  assumes "list_all (\<lambda>c. 65 \<le> c \<and> c \<le> 90) xs" "\<not> hasRow d"
  shows "decodeAddress_loop (xs @ ys) d =
           decodeAddress_loop ys
             (d\<lparr>hasCol := hasCol d \<or> xs \<noteq> [], colLetters := colLetters d @ xs,
                colNumber := foldl (\<lambda>n c. n * 26 + c - 64) (colNumber d) xs\<rparr>)"
  using assms by (induction xs arbitrary: d) simp_all

lemma decode_digits:
  assumes "list_all (\<lambda>c. 48 \<le> c \<and> c \<le> 57) ys"
  shows "decodeAddress_loop ys d =
           d\<lparr>hasRow := hasRow d \<or> ys \<noteq> [],
             rowNumber := foldl (\<lambda>n c. n * 10 + c - 48) (rowNumber d) ys\<rparr>"
  using assms by (induction ys arbitrary: d) simp_all

lemma decimal_small: "n < 10 \<Longrightarrow> decimal n = [48 + n]"
  by (simp add: decimal.simps)

lemma decimal_large: "\<not> n < 10 \<Longrightarrow> decimal n = decimal (n div 10) @ [48 + n mod 10]"
  by (subst decimal.simps) simp

lemma decimal_nonempty: "decimal n \<noteq> []"
  by (cases "n < 10") (simp_all add: decimal_small decimal_large)

lemma decimal_digits: "list_all (\<lambda>c. 48 \<le> c \<and> c \<le> 57) (decimal n)"
proof (induction n rule: decimal.induct)
  case (1 n)
  show ?case
  proof (cases "n < 10")
    case True
    then show ?thesis by (simp add: decimal_small)
  next
    case False
    have "n mod 10 < 10" by simp
    then have "48 + n mod 10 \<le> 57" by linarith
    with "1.IH"[OF False] False show ?thesis by (simp add: decimal_large)
  qed
qed

lemma decimal_read_back: "foldl (\<lambda>n c. n * 10 + c - 48) 0 (decimal r) = r"
proof (induction r rule: decimal.induct)
  case (1 n)
  show ?case
  proof (cases "n < 10")
    case True
    then show ?thesis by (simp add: decimal_small)
  next
    case False
    then show ?thesis using "1.IH"[OF False] by (simp add: decimal_large)
  qed
qed

lemma columnNumber_letter: "0 \<le> n \<Longrightarrow> columnNumber (getExcelColumnLetter n) = nat n"
proof (induction "nat n" arbitrary: n rule: less_induct)
  case less
  show ?case
  proof (cases "0 < n")
    case True
    let ?q = "(n - 1) div 26"
    have smaller: "nat ?q < nat n" and nonneg: "0 \<le> ?q" using True by simp_all
    have ih: "columnNumber (getExcelColumnLetter ?q) = nat ?q"
      by (rule less.hyps[OF smaller nonneg])
    have m: "0 \<le> (n - 1) mod 26" by simp
    have step: "columnNumber (getExcelColumnLetter n) = nat ?q * 26 + nat (65 + (n - 1) mod 26) - 64"
      using True ih by (simp add: letter_rec columnNumber_def)
    have "?q * 26 + (n - 1) mod 26 + 1 = n" by presburger
    then have "int (nat ?q * 26 + nat ((n - 1) mod 26) + 1) = n"
      using m nonneg by simp
    then have "nat ?q * 26 + nat ((n - 1) mod 26) + 1 = nat n" by linarith
    moreover have "nat (65 + (n - 1) mod 26) = 65 + nat ((n - 1) mod 26)"
      using m by (simp add: nat_add_distrib)
    ultimately have "nat ?q * 26 + nat (65 + (n - 1) mod 26) - 64 = nat n" by simp
    with step show ?thesis by simp
  next
    case False
    with less.prems have "n = 0" by simp
    then show ?thesis by (simp add: letter_nonpos columnNumber_def)
  qed
qed

lemma getCell_column_letter:
  assumes "1 \<le> n" "n \<le> 16384"
  shows "getCell (getExcelColumnLetter n @ decimal r) = Inr (nat n, r)"
proof -
  let ?d0 = "\<lparr>hasCol = False, colLetters = [], colNumber = 0, hasRow = False, rowNumber = 0\<rparr>"
  have nonempty: "getExcelColumnLetter n \<noteq> []"
    using letter_is_label[of n] assms(1) by (simp add: is_column_label_def)
  have col: "foldl (\<lambda>n c. n * 26 + c - 64) 0 (getExcelColumnLetter n) = nat n"
    using columnNumber_letter[of n] assms(1) by (simp add: columnNumber_def)
  have "decodeAddress_loop (getExcelColumnLetter n @ decimal r) ?d0 =
          \<lparr>hasCol = True, colLetters = getExcelColumnLetter n, colNumber = nat n,
           hasRow = True, rowNumber = r\<rparr>"
    by (simp add: decode_letters[OF letter_chars] decode_digits[OF decimal_digits]
        nonempty decimal_nonempty col decimal_read_back)
  then show ?thesis using assms by (simp add: getCell_def decodeAddress_def Let_def)
qed

lemma letter_length_3: "n \<le> 16384 \<Longrightarrow> length (getExcelColumnLetter n) \<le> 3"
proof -
  assume "n \<le> 16384"
  then have "length (getExcelColumnLetter n) \<le> length (getExcelColumnLetter 16384)"
    by (rule letter_length_mono)
  moreover have "getExcelColumnLetter 16384 = str ''XFD''" by code_simp
  ultimately show ?thesis by (simp add: str_def)
qed

lemma rowGetCell_column_letter:
  assumes "1 \<le> n" "n \<le> 16384"
  shows "rowGetCell r (getExcelColumnLetter n) = Inr (nat n, r)"
proof -
  have "getExcelColumnLetter n \<noteq> []"
    using letter_is_label[of n] assms(1) by (simp add: is_column_label_def)
  then show ?thesis
    using assms letter_chars[of n] letter_length_3[of n] columnNumber_letter[of n]
    by (simp add: rowGetCell_def l2n_def)
qed

lemma createBuffer_sheet_upto_26_columns:
  assumes "createBuffer headers data worksheetNames = (Some wb, Inr b)"
    and "i < length (normalize headers)"
  shows "length (normalize headers ! i) \<le> 26
     \<and> (\<exists>rows. array_get (normalize_data data) i = Some (RowArray rows)
     \<and> rowFont (wb ! i) 1 = Some \<lparr>bold = True\<rparr>
     \<and> (\<forall>k<length (normalize headers ! i).
          getCell (getExcelColumnLetter (int k + 1) @ str ''1'') = Inr (k + 1, 1)
          \<and> cells (wb ! i) (k + 1, 1) = Some (JStr (name (snd (normalize headers ! i ! k))))
          \<and> columnWidth (wb ! i) (k + 1) = Some (width (snd (normalize headers ! i ! k)))
          \<and> columnAlignment (wb ! i) (k + 1)
              = Some \<lparr>vertical = str ''middle'', horizontal = str ''center'', wrapText = True\<rparr>
          \<and> (\<forall>j<length rows.
                rowGetCell (2 + j) (getExcelColumnLetter (int k + 1)) = Inr (k + 1, 2 + j)
                \<and> cells (wb ! i) (k + 1, 2 + j)
                  = Some (get_property (rows ! j) (fst (normalize headers ! i ! k))))))"
proof -
  let ?h = "normalize headers ! i"
  from createBuffer_success(3)[OF assms(1,2)]
  obtain rows where len: "length ?h \<le> 26"
    and rows: "array_get (normalize_data data) i = Some (RowArray rows)"
    and sheet: "wb ! i = dataSheet ?h rows" by blast
  have cols: "getCell (getExcelColumnLetter (int k + 1) @ str ''1'') = Inr (k + 1, 1)
          \<and> cells (wb ! i) (k + 1, 1) = Some (JStr (name (snd (?h ! k))))
          \<and> columnWidth (wb ! i) (k + 1) = Some (width (snd (?h ! k)))
          \<and> columnAlignment (wb ! i) (k + 1)
              = Some \<lparr>vertical = str ''middle'', horizontal = str ''center'', wrapText = True\<rparr>
          \<and> (\<forall>j<length rows.
                rowGetCell (2 + j) (getExcelColumnLetter (int k + 1)) = Inr (k + 1, 2 + j)
                \<and> cells (wb ! i) (k + 1, 2 + j)
                  = Some (get_property (rows ! j) (fst (?h ! k))))" if k: "k < length ?h" for k
  proof -
    have k26: "k < 26" using k len by simp
    have a: "getCell (getExcelColumnLetter (int k + 1) @ str ''1'') = Inr (k + 1, 1)"
      using getCell_columnKey[OF k26] columnKey_letter[OF k26] by simp
    have b: "rowGetCell r (getExcelColumnLetter (int k + 1)) = Inr (k + 1, r)" for r
      using rowGetCell_columnKey[OF k26] columnKey_letter[OF k26] by simp
    show ?thesis
      unfolding sheet
      using a b dataSheet_header_cell[OF k len] dataSheet_row_and_columns(2,3)[OF k]
        dataSheet_data_cell[OF _ k len]
      by blast
  qed
  have font: "rowFont (wb ! i) 1 = Some \<lparr>bold = True\<rparr>"
    unfolding sheet by (rule dataSheet_row_and_columns(1))
  show ?thesis using len rows font cols by blast
qed

lemma createBuffer_round_trip_example:
  "\<exists>ws. createBuffer (Many [exampleHeaders]) (DataArray [RowArray exampleData]) (Many [])
           = (Some [ws], Inr (XlsxBuffer [ws]))
     \<and> map getCell [str ''A1'', str ''B1'', str ''A2'', str ''B2'', str ''A3'', str ''B3'']
         = [Inr (1, 1), Inr (2, 1), Inr (1, 2), Inr (2, 2), Inr (1, 3), Inr (2, 3)]
     \<and> map (cells ws) [(1, 1), (2, 1)] = [Some (JStr (str ''ID'')), Some (JStr (str ''Label''))]
     \<and> map (cells ws) [(1, 2), (2, 2)] = [Some (JNum 1), Some (JStr (str ''a''))]
     \<and> map (cells ws) [(1, 3), (2, 3)] = [Some (JNum 2), Some (JStr (str ''b''))]
     \<and> rowFont ws 1 = Some \<lparr>bold = True\<rparr>
     \<and> columnWidth ws 1 = Some 10 \<and> columnWidth ws 2 = Some 20"
proof -
  let ?ws = "dataSheet exampleHeaders exampleData"
  have len: "length exampleHeaders \<le> 26" "0 < length exampleHeaders" "Suc 0 < length exampleHeaders"
    "0 < length exampleData" "Suc 0 < length exampleData"
    by (simp_all add: exampleHeaders_def exampleData_def)
  have len0: "length ([exampleHeaders] ! 0) \<le> 26" using len(1) by simp
  have run: "createBuffer (Many [exampleHeaders]) (DataArray [RowArray exampleData]) (Many [])
           = (Some [?ws], Inr (XlsxBuffer [?ws]))"
    using sheetStep_RowArray[OF len0, of "[RowArray exampleData]" exampleData "[]"]
    by (simp add: createBuffer_def boolToNumber_def createWorkbook_def getBuffer_def
      createBuffer_loop.simps[of _ _ 0] createBuffer_loop.simps[of _ _ "Suc 0"] array_get_def)
  have addr: "map getCell [str ''A1'', str ''B1'', str ''A2'', str ''B2'', str ''A3'', str ''B3'']
         = [Inr (1, 1), Inr (2, 1), Inr (1, 2), Inr (2, 2), Inr (1, 3), Inr (2, 3)]"
    by (simp add: getCell_def decodeAddress_def str_def)
  have h1: "cells ?ws (1, 1) = Some (JStr (str ''ID''))"
    using dataSheet_header_cell[OF len(2,1), of exampleData] by (simp add: exampleHeaders_def)
  have h2: "cells ?ws (2, 1) = Some (JStr (str ''Label''))"
    using dataSheet_header_cell[OF len(3,1), of exampleData]
    by (simp add: exampleHeaders_def numeral_2_eq_2)
  have d: "cells ?ws (1, 2) = Some (JNum 1)" "cells ?ws (2, 2) = Some (JStr (str ''a''))"
    "cells ?ws (1, 3) = Some (JNum 2)" "cells ?ws (2, 3) = Some (JStr (str ''b''))"
    using dataSheet_data_cell[OF len(4) len(2,1)] dataSheet_data_cell[OF len(4) len(3,1)]
      dataSheet_data_cell[OF len(5) len(2,1)] dataSheet_data_cell[OF len(5) len(3,1)]
    by (simp_all add: exampleHeaders_def exampleData_def get_property_def str_def
        numeral_2_eq_2 numeral_3_eq_3)
  have f: "rowFont ?ws 1 = Some \<lparr>bold = True\<rparr>" by (rule dataSheet_row_and_columns(1))
  have w: "columnWidth ?ws 1 = Some 10" "columnWidth ?ws 2 = Some 20"
    using dataSheet_row_and_columns(2)[OF len(2), of exampleData]
      dataSheet_row_and_columns(2)[OF len(3), of exampleData]
    by (simp_all add: exampleHeaders_def numeral_2_eq_2)
  show ?thesis using run addr h1 h2 d f w by (intro exI[of _ ?ws]) simp
qed

text \<open>
  Claim C2. Every sheet is to receive its header labels in row 1 and the values of row
  object \<open>j\<close> in row \<open>2 + j\<close>, one column per field from column \<open>A\<close> on. For header
  objects of at most 26 fields it does (\<open>createBuffer_sheet_upto_26_columns\<close>, and
  \<open>createBuffer_round_trip_example\<close> for the example of the claim). With the 27 fields of
  \<open>header27\<close> and one row, \<open>setHeaders\<close> asks for the cell \<open>[1\<close> at the 27th field, the
  library throws, and the call ends with that error and no buffer: the first 26 labels are
  written, the cells \<open>AA1\<close> and \<open>AA2\<close> of the 27th column, which
  \<open>getExcelColumnLetter\<close> calls \<open>AA\<close>, stay empty, and no column width is set.
\<close>

theorem createBuffer_column_27_rejected:
  "createBuffer (Many [header27]) (DataArray [RowArray [[(str ''f26'', JNum 7)]]]) (Many [])
     = (Some [labelledSheet header27], Inl (Error (str ''A Cell needs a Row'')))
   \<and> cells (labelledSheet header27) (26, 1) = Some (JStr (str ''H25''))
   \<and> getExcelColumnLetter 27 = str ''AA''
   \<and> getCell (str ''AA1'') = Inr (27, 1) \<and> getCell (str ''AA2'') = Inr (27, 2)
   \<and> cells (labelledSheet header27) (27, 1) = None
   \<and> cells (labelledSheet header27) (27, 2) = None
   \<and> columnWidth (labelledSheet header27) = Map.empty"
proof -
  have len: "26 < length header27" "26 < length ([header27] ! 0)" "25 < (26::nat)"
    by (simp_all add: header27_def)
  have run: "createBuffer (Many [header27]) (DataArray [RowArray [[(str ''f26'', JNum 7)]]]) (Many [])
     = (Some [labelledSheet header27], Inl (Error (str ''A Cell needs a Row'')))"
    using sheetStep_over_26[OF len(2), of "[RowArray [[(str ''f26'', JNum 7)]]]" "[]"]
    by (simp add: createBuffer_def boolToNumber_def createWorkbook_def
      createBuffer_loop.simps[of _ _ 0])
  have field: "header27 ! 25 = (str ''f25'', \<lparr>name = str ''H25'', width = 10\<rparr>)"
    by (simp add: header27_def decimal.simps str_def)
  have z: "cells (labelledSheet header27) (26, 1) = Some (JStr (str ''H25''))"
    using labelledSheet_first_26[OF len(1,3)] by (simp add: field)
  have aa: "getExcelColumnLetter 27 = str ''AA''" by code_simp
  have addr: "getCell (str ''AA1'') = Inr (27, 1)" "getCell (str ''AA2'') = Inr (27, 2)"
    by (simp_all add: getCell_def decodeAddress_def str_def)
  have e: "cells (labelledSheet header27) (27, 1) = None"
    "cells (labelledSheet header27) (27, 2) = None"
    by (simp_all add: labelledSheet_far_columns)
  have w: "columnWidth (labelledSheet header27) = Map.empty" by (rule labelledSheet_name)
  show ?thesis using run z aa addr e w by simp
qed

text \<open>
  Claim C4. The worksheet created at index \<open>i\<close> is to carry the name
  \<open>worksheetNames[i]\<close>. A call with one header object, two data arrays and the one name
  \<open>s\<close> passes the size check and creates one sheet, which was created without a name,
  while \<open>worksheetNames[0]\<close> is \<open>s\<close>; with a header object of at most 26 fields the call
  returns the buffer of that workbook. (No sheet that \<open>createBuffer\<close> creates is given a
  name, and each has paper size 9 and landscape orientation:
  \<open>createBuffer_sheets_unnamed\<close>.)
\<close>

theorem createBuffer_ignores_worksheetNames:
  "(\<exists>ws r. createBuffer (Many [h]) (DataArray [RowArray rows, d]) (Many [s]) = (Some [ws], r)
       \<and> sheetName ws = None)
   \<and> (length h \<le> 26 \<longrightarrow>
        createBuffer (Many [h]) (DataArray [RowArray rows, d]) (Many [s]) =
          (Some [dataSheet h rows], Inr (XlsxBuffer [dataSheet h rows])))
   \<and> array_get (normalize (Many [s])) 0 = Some s"
proof -
  have small: "createBuffer (Many [h]) (DataArray [RowArray rows, d]) (Many [s]) =
          (Some [dataSheet h rows], Inr (XlsxBuffer [dataSheet h rows]))" if "length h \<le> 26"
  proof -
    have len0: "length ([h] ! 0) \<le> 26" using that by simp
    show ?thesis
      using sheetStep_RowArray[OF len0, of "[RowArray rows, d]" rows "[]"]
      by (simp add: createBuffer_def boolToNumber_def createWorkbook_def getBuffer_def
        createBuffer_loop.simps[of _ _ 0] createBuffer_loop.simps[of _ _ "Suc 0"] array_get_def)
  qed
  have large: "createBuffer (Many [h]) (DataArray [RowArray rows, d]) (Many [s]) =
          (Some [labelledSheet h], Inl (Error (str ''A Cell needs a Row'')))" if "26 < length h"
  proof -
    have len0: "26 < length ([h] ! 0)" using that by simp
    show ?thesis
      using sheetStep_over_26[OF len0, of "[RowArray rows, d]" "[]"]
      by (simp add: createBuffer_def boolToNumber_def createWorkbook_def
        createBuffer_loop.simps[of _ _ 0])
  qed
  have ex: "\<exists>ws r. createBuffer (Many [h]) (DataArray [RowArray rows, d]) (Many [s]) = (Some [ws], r)
       \<and> sheetName ws = None"
  proof (cases "length h \<le> 26")
    case True
    then show ?thesis using small dataSheet_name(1) by blast
  next
    case False
    then have "26 < length h" by simp
    then show ?thesis using large labelledSheet_name(1) by blast
  qed
  show ?thesis using ex small by (simp add: array_get_def)
qed

theorem createBuffer_ignores_worksheetNames_witness:
  "length exampleHeaders \<le> 26
   \<and> createBuffer (Many [exampleHeaders]) (DataArray [RowArray exampleData, RowArray []])
        (Many [str ''Sales'']) =
       (Some [dataSheet exampleHeaders exampleData],
        Inr (XlsxBuffer [dataSheet exampleHeaders exampleData]))
   \<and> array_get (normalize (Many [str ''Sales''])) 0 = Some (str ''Sales'')"
proof -
  have h: "length exampleHeaders \<le> 26" by (simp add: exampleHeaders_def)
  show ?thesis
    using h createBuffer_ignores_worksheetNames
      [of exampleHeaders exampleData "RowArray []" "str ''Sales''"]
    by blast
qed

text \<open>
  Claim C6. \<open>createBuffer(h, d, s)\<close> with a single header object, a data array and a
  name is to give what \<open>createBuffer([h], [d], [s])\<close> gives. For a data array \<open>d\<close> of
  two rows, the first call passes the size check, creates a workbook with one sheet and
  ends in an error that is not the size error: with a header object of at most 26 fields
  a \<open>TypeError\<close> at the \<open>forEach\<close> of the first row object. The second call throws the
  size error and creates nothing.
\<close>

theorem createBuffer_single_data_array_differs:
  "(\<exists>ws e. createBuffer (Single h) (DataArray [RowObject r1, RowObject r2]) (Single s) =
       (Some [ws], Inl e) \<and> e \<noteq> sizeError)
   \<and> (length h \<le> 26 \<longrightarrow>
        createBuffer (Single h) (DataArray [RowObject r1, RowObject r2]) (Single s) =
          (Some [headerSheet h], Inl TypeError))
   \<and> createBuffer (Many [h]) (DataArray [RowArray [r1, r2]]) (Many [s]) = (None, Inl sizeError)"
proof -
  have small: "createBuffer (Single h) (DataArray [RowObject r1, RowObject r2]) (Single s) =
          (Some [headerSheet h], Inl TypeError)" if "length h \<le> 26"
  proof -
    have len0: "length ([h] ! 0) \<le> 26" using that by simp
    show ?thesis
      using sheetStep_TypeError[OF len0, of "[RowObject r1, RowObject r2]" "[]"]
      by (simp add: createBuffer_def boolToNumber_def createWorkbook_def
        createBuffer_loop.simps[of _ _ 0] array_get_def)
  qed
  have large: "createBuffer (Single h) (DataArray [RowObject r1, RowObject r2]) (Single s) =
          (Some [labelledSheet h], Inl (Error (str ''A Cell needs a Row'')))" if "26 < length h"
  proof -
    have len0: "26 < length ([h] ! 0)" using that by simp
    show ?thesis
      using sheetStep_over_26[OF len0, of "[RowObject r1, RowObject r2]" "[]"]
      by (simp add: createBuffer_def boolToNumber_def createWorkbook_def
        createBuffer_loop.simps[of _ _ 0])
  qed
  have ex: "\<exists>ws e. createBuffer (Single h) (DataArray [RowObject r1, RowObject r2]) (Single s) =
       (Some [ws], Inl e) \<and> e \<noteq> sizeError"
  proof (cases "length h \<le> 26")
    case True
    then show ?thesis using small by (auto simp add: sizeError_def)
  next
    case False
    then have "26 < length h" by simp
    then show ?thesis using large by (auto simp add: sizeError_def str_def)
  qed
  have wrapped: "createBuffer (Many [h]) (DataArray [RowArray [r1, r2]]) (Many [s]) = (None, Inl sizeError)"
    by (simp add: createBuffer_def boolToNumber_def)
  show ?thesis using ex small wrapped by simp
qed

theorem createBuffer_single_data_array_differs_witness:
  "length exampleHeaders \<le> 26
   \<and> createBuffer (Single exampleHeaders) (DataArray (map RowObject exampleData))
        (Single (str ''Sales'')) = (Some [headerSheet exampleHeaders], Inl TypeError)
   \<and> createBuffer (Many [exampleHeaders]) (DataArray [RowArray exampleData])
        (Many [str ''Sales'']) = (None, Inl sizeError)"
proof -
  have h: "length exampleHeaders \<le> 26" by (simp add: exampleHeaders_def)
  have d: "map RowObject exampleData = [RowObject (exampleData ! 0), RowObject (exampleData ! 1)]"
    "exampleData = [exampleData ! 0, exampleData ! 1]"
    by (simp_all add: exampleData_def)
  show ?thesis
    using h createBuffer_single_data_array_differs
      [of exampleHeaders "exampleData ! 0" "exampleData ! 1" "str ''Sales''"]
    unfolding d(1) by (metis d(2))
qed

section \<open>Column keys and column letters\<close>

lemma forEachFrom_no_error:
  assumes "\<And>k s. k < length ys \<Longrightarrow> snd (f (ys ! k) (n + k) s) = None"
  shows "snd (forEachFrom n ys f s) = None"
  using assms
proof (induction ys arbitrary: n s)
  case Nil
  then show ?case by simp
next
  case (Cons y ys)
  have head: "snd (f y n s) = None" using Cons.prems[of 0 s] by simp
  have tail: "snd (forEachFrom (Suc n) ys f s') = None" for s'
    using Cons.prems[of "Suc k" for k] by (intro Cons.IH) simp
  show ?case using head tail by (cases "f y n s") (auto split: option.splits)
qed

lemma decimal_1: "decimal (Suc 0) = str ''1''"
  by (simp add: decimal.simps str_def)

lemma setHeaders_by_letter_no_error:
  assumes "length hs \<le> 16384"
  shows "snd (setHeaders_by_letter ws hs) = None"
proof -
  have "getCell (getExcelColumnLetter (int k + 1) @ str ''1'') = Inr (k + 1, 1)"
    if "k < length hs" for k
    using getCell_column_letter[of "int k + 1" "Suc 0"] that assms
    by (simp add: decimal_1 nat_add_distrib)
  then show ?thesis
    unfolding setHeaders_by_letter_def forEachThrowing_def
    by (intro forEachFrom_no_error) simp
qed

lemma addDataRow_by_letter_no_error:
  assumes "length ys \<le> 16384"
  shows "snd (addDataRow_by_letter ws r ys) = None"
proof -
  have "rowGetCell r (getExcelColumnLetter (int k + 1)) = Inr (k + 1, r)"
    if "k < length ys" for k
    using rowGetCell_column_letter[of "int k + 1" r] that assms
    by (simp add: nat_add_distrib)
  then show ?thesis
    unfolding addDataRow_by_letter_def forEachThrowing_def
    by (intro forEachFrom_no_error) simp
qed

lemma letter_length_27: "27 \<le> n \<Longrightarrow> 2 \<le> length (getExcelColumnLetter n)"
proof -
  assume "27 \<le> n"
  then have "length (getExcelColumnLetter 27) \<le> length (getExcelColumnLetter n)"
    by (rule letter_length_mono)
  moreover have "getExcelColumnLetter 27 = str ''AA''" by code_simp
  ultimately show ?thesis by (simp add: str_def)
qed

lemma columnKey_26:
  "columnKey 26 = fromCharCode (65 + 26)" "columnKey 26 = str ''[''" "length (columnKey 26) = 1"
  "\<not> is_column_label (columnKey 26)" "getExcelColumnLetter n \<noteq> columnKey 26"
proof -
  show "columnKey 26 = fromCharCode (65 + 26)" by (simp add: columnKey_def)
  show k: "columnKey 26 = str ''[''" by (simp add: columnKey_small str_def)
  show "length (columnKey 26) = 1" by (rule columnKey_length)
  show "\<not> is_column_label (columnKey 26)" by (simp add: k is_column_label_def str_def)
  show "getExcelColumnLetter n \<noteq> columnKey 26"
  proof
    assume "getExcelColumnLetter n = columnKey 26"
    then have "list_all (\<lambda>c. 65 \<le> c \<and> c \<le> 90) (str ''['')"
      using letter_chars[of n] by (simp add: k)
    then show False by (simp add: str_def)
  qed
qed

text \<open>
  Claim C9. \<open>setHeaders\<close> and \<open>addDataRow\<close> address the column of 0-based index \<open>i\<close>
  by the one-character string of code \<open>65 + i\<close>. For arrays of at most 26 entries that is
  \<open>getExcelColumnLetter(i + 1)\<close>: both functions do what the loops addressing by
  \<open>getExcelColumnLetter(i + 1)\<close> do, without error, and on a sheet without merged ranges
  the label and the item of index \<open>i\<close> are in column \<open>i + 1\<close>. For longer arrays the
  character for index 26 is \<open>[\<close>, which is no letter from \<open>A\<close> to \<open>Z\<close>, no column
  label, and not \<open>getExcelColumnLetter(27)\<close>, which is \<open>AA\<close>: the library rejects it, so that
  both functions end with the library's error after the first 26 entries and address no
  further index, where the loops addressing by \<open>getExcelColumnLetter(i + 1)\<close> go on
  without error up to 16384 entries.
\<close>

theorem setHeaders_addDataRow_column_addresses:
  assumes "length hs \<le> 26" "length ys \<le> 26" "26 < length hs'" "26 < length ys'"
  shows "(\<forall>i<26. columnKey i = fromCharCode (65 + int i) \<and> columnKey i = [65 + i]
           \<and> columnKey i = getExcelColumnLetter (int i + 1))
     \<and> setHeaders ws hs = setHeaders_by_letter ws hs \<and> snd (setHeaders ws hs) = None
     \<and> addDataRow ws r ys = addDataRow_by_letter ws r ys \<and> snd (addDataRow ws r ys) = None
     \<and> (merges ws = [] \<longrightarrow>
          (\<forall>i<length hs. cells (fst (setHeaders ws hs)) (i + 1, 1) = Some (JStr (hs ! i)))
          \<and> (\<forall>i<length ys. cells (fst (addDataRow ws r ys)) (i + 1, r) = Some (ys ! i)))
     \<and> columnKey 26 = fromCharCode (65 + 26) \<and> columnKey 26 = str ''[''
     \<and> \<not> is_column_label (columnKey 26) \<and> (\<forall>n. getExcelColumnLetter n \<noteq> columnKey 26)
     \<and> getExcelColumnLetter (26 + 1) = str ''AA''
     \<and> getCell (columnKey 26 @ str ''1'') = Inl (Error (str ''A Cell needs a Row''))
     \<and> rowGetCell r (columnKey 26) = Inl (Error (str ''Out of bounds. Invalid column letter: [''))
     \<and> setHeaders ws hs' =
         (fst (setHeaders ws (take 26 hs')), Some (Error (str ''A Cell needs a Row'')))
     \<and> addDataRow ws r ys' =
         (fst (addDataRow ws r (take 26 ys')),
          Some (Error (str ''Out of bounds. Invalid column letter: ['')))
     \<and> (length hs' \<le> 16384 \<longrightarrow> snd (setHeaders_by_letter ws hs') = None)
     \<and> (length ys' \<le> 16384 \<longrightarrow> snd (addDataRow_by_letter ws r ys') = None)"
proof -
  have keys: "\<forall>i<26. columnKey i = fromCharCode (65 + int i) \<and> columnKey i = [65 + i]
           \<and> columnKey i = getExcelColumnLetter (int i + 1)"
    by (simp add: columnKey_def[symmetric] columnKey_small columnKey_letter[symmetric])
  have h1: "setHeaders ws hs = setHeaders_by_letter ws hs"
    using assms(1) by (rule setHeaders_by_letter_eq)
  have h2: "snd (setHeaders ws hs) = None"
    using assms(1) by (simp add: setHeaders_upto_26)
  have d1: "addDataRow ws r ys = addDataRow_by_letter ws r ys"
    using assms(2) by (rule addDataRow_by_letter_eq)
  have d2: "snd (addDataRow ws r ys) = None"
    using assms(2) by (simp add: addDataRow_upto_26)
  have cellsH: "\<forall>i<length hs. cells (fst (setHeaders ws hs)) (i + 1, 1) = Some (JStr (hs ! i))"
    if "merges ws = []"
    using that assms(1) setHeaders_cell[of ws _ hs] by blast
  have cellsD: "\<forall>i<length ys. cells (fst (addDataRow ws r ys)) (i + 1, r) = Some (ys ! i)"
    if "merges ws = []"
    using that assms(2) addDataRow_cell[of ws _ ys r] by blast
  have aa: "getExcelColumnLetter (26 + 1) = str ''AA''" by code_simp
  have h3: "setHeaders ws hs' =
         (fst (setHeaders ws (take 26 hs')), Some (Error (str ''A Cell needs a Row'')))"
    using assms(3) by (rule setHeaders_over_26)
  have d3: "addDataRow ws r ys' =
         (fst (addDataRow ws r (take 26 ys')),
          Some (Error (str ''Out of bounds. Invalid column letter: ['')))"
    using assms(4) by (rule addDataRow_over_26)
  show ?thesis
    using keys h1 h2 d1 d2 cellsH cellsD columnKey_26(1,2,4,5) aa getCell_columnKey_26
      rowGetCell_columnKey_26[of r] h3 d3 setHeaders_by_letter_no_error[of hs' ws]
      addDataRow_by_letter_no_error[of ys' ws r]
    by blast
qed

theorem setHeaders_addDataRow_column_addresses_witness:
  "length [str ''ID'', str ''Label''] \<le> 26 \<and> length [JNum 1, JStr (str ''a'')] \<le> 26
   \<and> 26 < length (map (\<lambda>k. str ''H'' @ decimal k) [0..<27])
   \<and> 26 < length (map (\<lambda>k. JNum (int k)) [0..<27])
   \<and> merges (headerSheet []) = []
   \<and> length (map (\<lambda>k. str ''H'' @ decimal k) [0..<27]) \<le> 16384
   \<and> length (map (\<lambda>k. JNum (int k)) [0..<27]) \<le> 16384
   \<and> setHeaders (headerSheet []) [str ''ID'', str ''Label'']
       = setHeaders_by_letter (headerSheet []) [str ''ID'', str ''Label'']
   \<and> addDataRow (headerSheet []) 2 [JNum 1, JStr (str ''a'')]
       = addDataRow_by_letter (headerSheet []) 2 [JNum 1, JStr (str ''a'')]
   \<and> snd (setHeaders (headerSheet []) (map (\<lambda>k. str ''H'' @ decimal k) [0..<27]))
       = Some (Error (str ''A Cell needs a Row''))
   \<and> snd (setHeaders_by_letter (headerSheet []) (map (\<lambda>k. str ''H'' @ decimal k) [0..<27]))
       = None
   \<and> snd (addDataRow (headerSheet []) 2 (map (\<lambda>k. JNum (int k)) [0..<27]))
       = Some (Error (str ''Out of bounds. Invalid column letter: [''))
   \<and> snd (addDataRow_by_letter (headerSheet []) 2 (map (\<lambda>k. JNum (int k)) [0..<27])) = None"
proof -
  have h: "length [str ''ID'', str ''Label''] \<le> 26" "length [JNum 1, JStr (str ''a'')] \<le> 26"
    "26 < length (map (\<lambda>k. str ''H'' @ decimal k) [0..<27])"
    "26 < length (map (\<lambda>k. JNum (int k)) [0..<27])"
    by simp_all
  have m: "merges (headerSheet []) = []" by (rule headerSheet_name)
  have l: "length (map (\<lambda>k. str ''H'' @ decimal k) [0..<27]) \<le> 16384"
    "length (map (\<lambda>k. JNum (int k)) [0..<27]) \<le> 16384"
    by simp_all
  note t = setHeaders_addDataRow_column_addresses [OF h, of "headerSheet []" 2]
  from t have a: "setHeaders (headerSheet []) [str ''ID'', str ''Label'']
       = setHeaders_by_letter (headerSheet []) [str ''ID'', str ''Label'']" by blast
  from t have b: "addDataRow (headerSheet []) 2 [JNum 1, JStr (str ''a'')]
       = addDataRow_by_letter (headerSheet []) 2 [JNum 1, JStr (str ''a'')]" by blast
  from t have "setHeaders (headerSheet []) (map (\<lambda>k. str ''H'' @ decimal k) [0..<27]) =
         (fst (setHeaders (headerSheet []) (take 26 (map (\<lambda>k. str ''H'' @ decimal k) [0..<27]))),
          Some (Error (str ''A Cell needs a Row'')))" by blast
  then have c: "snd (setHeaders (headerSheet []) (map (\<lambda>k. str ''H'' @ decimal k) [0..<27]))
       = Some (Error (str ''A Cell needs a Row''))" by simp
  from t l(1) have d: "snd (setHeaders_by_letter (headerSheet [])
       (map (\<lambda>k. str ''H'' @ decimal k) [0..<27])) = None" by blast
  from t have "addDataRow (headerSheet []) 2 (map (\<lambda>k. JNum (int k)) [0..<27]) =
         (fst (addDataRow (headerSheet []) 2 (take 26 (map (\<lambda>k. JNum (int k)) [0..<27]))),
          Some (Error (str ''Out of bounds. Invalid column letter: ['')))" by blast
  then have e: "snd (addDataRow (headerSheet []) 2 (map (\<lambda>k. JNum (int k)) [0..<27]))
       = Some (Error (str ''Out of bounds. Invalid column letter: [''))" by simp
  from t l(2) have f: "snd (addDataRow_by_letter (headerSheet []) 2
       (map (\<lambda>k. JNum (int k)) [0..<27])) = None" by blast
  show ?thesis using h m l a b c d e f by blast
qed

section \<open>Complex headers\<close>













text \<open>
  Claim C5. An entry of \<open>setComplexHeaders\<close> that names neither a cell nor a
  \<open>from\<close>/\<open>to\<close> pair is to fail with an error that includes the entry's contents. The
  error thrown for the entry \<open>{value: "x"}\<close> is the fixed message alone, and it is the same
  error that the different entry \<open>{from: "A1", value: "y"}\<close> gets, so it does not tell
  the entry. (What the two good shapes of an entry do is \<open>setComplexHeaders_entry\<close> and
  \<open>mergeCells_references\<close>.)
\<close>

theorem setComplexHeaders_error_without_entry:
  "setComplexHeaders ws
     [\<lparr>h_cell = None, h_from = None, h_to = None, h_value = JStr (str ''x'')\<rparr>] =
     (ws, Some (Error (str
        ''Either cell or from & to fields must be present in headers array objects:'')))
   \<and> snd (setComplexHeaders ws
        [\<lparr>h_cell = None, h_from = None, h_to = None, h_value = JStr (str ''x'')\<rparr>]) =
     snd (setComplexHeaders ws
        [\<lparr>h_cell = None, h_from = Some (str ''A1''), h_to = None, h_value = JStr (str ''y'')\<rparr>])"
  by (simp add: truthy_def)


end
